theory Spec2Isabelle
  imports Main "HOL-Library.List_Lexorder" "HOL-Library.AList"
begin

section \<open>Strings\<close>

text \<open>
  A JavaScript string is a sequence of UTF-16 code units; a code unit is modelled as an
  integer (from 0 to 65535 in every real string, bounds that no definition needs).
  Lists of code units are ordered lexicographically, which is the order of the default
  \<^verbatim>\<open>Array.prototype.sort\<close> on strings. \<open>js\<close> turns a literal of this file into a
  JavaScript string.
\<close>

type_synonym code_unit = int

type_synonym js_string = "code_unit list"

definition js :: "string \<Rightarrow> js_string" where
  "js s = map of_char s"

definition newline :: code_unit where
  "newline = 10"

definition backslash :: code_unit where
  "backslash = 92"

definition dquote :: code_unit where
  "dquote = 34"

definition squote :: code_unit where
  "squote = 39"

definition backtick :: code_unit where
  "backtick = 96"

definition dollar :: code_unit where
  "dollar = 36"

definition lbrace :: code_unit where
  "lbrace = 123"

text \<open>
  The class \<^verbatim>\<open>\s\<close> of a regular expression, which is also what
  \<^verbatim>\<open>String.prototype.trim\<close> removes: tab, line feed, vertical tab, form feed,
  carriage return, space, U+00A0, U+1680, U+2000 to U+200A, U+2028, U+2029, U+202F,
  U+205F, U+3000 and U+FEFF.
\<close>

definition is_space :: "code_unit \<Rightarrow> bool" where
  "is_space c \<longleftrightarrow>
     (9 \<le> c \<and> c \<le> 13) \<or> c = 32 \<or> c = 160 \<or> c = 5760 \<or> (8192 \<le> c \<and> c \<le> 8202)
     \<or> c = 8232 \<or> c = 8233 \<or> c = 8239 \<or> c = 8287 \<or> c = 12288 \<or> c = 65279"

text \<open>The class \<^verbatim>\<open>\w\<close>, which decides the word boundary \<^verbatim>\<open>\b\<close>.\<close>

definition is_word :: "code_unit \<Rightarrow> bool" where
  "is_word c \<longleftrightarrow> (48 \<le> c \<and> c \<le> 57) \<or> (65 \<le> c \<and> c \<le> 90) \<or> c = 95 \<or> (97 \<le> c \<and> c \<le> 122)"

text \<open>\<^verbatim>\<open>s.trim()\<close>: leading and trailing white space removed.\<close>

definition js_trim :: "js_string \<Rightarrow> js_string" where
  "js_trim s = rev (dropWhile is_space (rev (dropWhile is_space s)))"

text \<open>
  The test \<^verbatim>\<open>!value || value.trim() === ""\<close> on a value that is a string; a value
  that is not a string is handled where the property is read.
\<close>

definition blank :: "js_string \<Rightarrow> bool" where
  "blank v \<longleftrightarrow> v = [] \<or> js_trim v = []"


section \<open>The literal scanner (updateTranslations.js, extractTrCallsFromFile)\<close>

text \<open>The inner loop that skips white space after the opening parenthesis.\<close>

function skip_ws :: "js_string \<Rightarrow> nat \<Rightarrow> nat" where
  "skip_ws content index =
     (if index < length content \<and> is_space (content ! index)
      then skip_ws content (index + 1) else index)"
  by pat_completeness auto
termination
  by (relation "measure (\<lambda>(content, index). length content - index)") auto

declare skip_ws.simps [simp del]

text \<open>
  The regular expression \<^verbatim>\<open>/\btr\s*\(/g\<close> tried at position \<open>p\<close>: the position after
  the opening parenthesis when it matches there (116, 114 and 40 are \<^verbatim>\<open>t\<close>,
  \<^verbatim>\<open>r\<close> and the parenthesis). The star is greedy, and the character that must follow
  is not white space, so there is one way to match.
\<close>

definition match_at :: "js_string \<Rightarrow> nat \<Rightarrow> nat option" where
  "match_at content p =
     (if (p = 0 \<or> \<not> is_word (content ! (p - 1))) \<and> p + 1 < length content
         \<and> content ! p = 116 \<and> content ! (p + 1) = 114
      then (if skip_ws content (p + 2) < length content
               \<and> content ! (skip_ws content (p + 2)) = 40
            then Some (skip_ws content (p + 2) + 1) else None)
      else None)"

text \<open>
  \<^verbatim>\<open>trCallRegex.exec(content)\<close> with \<^verbatim>\<open>lastIndex = p\<close>: the leftmost match at or
  after \<open>p\<close>, as the pair of \<^verbatim>\<open>match.index\<close> and the new \<^verbatim>\<open>lastIndex\<close>.
\<close>

function regex_exec :: "js_string \<Rightarrow> nat \<Rightarrow> (nat \<times> nat) option" where
  "regex_exec content p =
     (if length content \<le> p then None
      else (case match_at content p of
              Some e \<Rightarrow> Some (p, e)
            | None \<Rightarrow> regex_exec content (p + 1)))"
  by pat_completeness auto
termination
  by (relation "measure (\<lambda>(content, p). length content - p)") auto

declare regex_exec.simps [simp del]

text \<open>
  The loop that consumes the literal. The result is the final \<^verbatim>\<open>index\<close>,
  \<^verbatim>\<open>value\<close>, \<^verbatim>\<open>hasNewline\<close> and \<^verbatim>\<open>hasTemplateExpression\<close>. Reading
  \<^verbatim>\<open>content[index + 1]\<close> past the end gives \<^verbatim>\<open>undefined\<close>, which is not a brace.
\<close>

function scan_literal ::
  "js_string \<Rightarrow> code_unit \<Rightarrow> nat \<Rightarrow> js_string \<Rightarrow> bool \<Rightarrow> bool \<Rightarrow> bool
     \<Rightarrow> nat \<times> js_string \<times> bool \<times> bool" where
  "scan_literal content quote index val hasNewline hasTemplateExpression escaped =
     (if index < length content then
        (if escaped then
           scan_literal content quote (index + 1) (val @ [content ! index])
             hasNewline hasTemplateExpression False
         else if content ! index = backslash then
           scan_literal content quote (index + 1) val hasNewline hasTemplateExpression True
         else if content ! index = quote then
           (index, val, hasNewline,
            hasTemplateExpression \<or>
              (quote = backtick \<and> content ! index = dollar
                 \<and> index + 1 < length content \<and> content ! (index + 1) = lbrace))
         else
           scan_literal content quote (index + 1) (val @ [content ! index])
             (hasNewline \<or> content ! index = newline)
             (hasTemplateExpression \<or>
                (quote = backtick \<and> content ! index = dollar
                   \<and> index + 1 < length content \<and> content ! (index + 1) = lbrace))
             False)
      else (index, val, hasNewline, hasTemplateExpression))"
  by pat_completeness auto
termination
  by (relation "measure (\<lambda>(content, quote, index, rest). length content - index)") auto

declare scan_literal.simps [simp del]

text \<open>
  The body of the outer loop for the match whose \<^verbatim>\<open>lastIndex\<close> is \<open>e\<close>: the key it
  accepts, or \<open>None\<close> where the source says \<^verbatim>\<open>continue\<close>.
\<close>

definition literal_at :: "js_string \<Rightarrow> nat \<Rightarrow> js_string option" where
  "literal_at content e =
     (let index = skip_ws content e in
      if length content \<le> index then None
      else if content ! index \<noteq> dquote \<and> content ! index \<noteq> squote
              \<and> content ! index \<noteq> backtick then None
      else (case scan_literal content (content ! index) (index + 1) [] False False False of
              (index', val, hasNewline, hasTemplateExpression) \<Rightarrow>
                if length content \<le> index' then None
                else if val = [] \<or> hasNewline \<or> hasTemplateExpression then None
                else Some val))"

text \<open>\<^verbatim>\<open>if (!keys.includes(value)) keys.push(value)\<close>\<close>

definition push_unique :: "js_string \<Rightarrow> js_string list \<Rightarrow> js_string list" where
  "push_unique v keys = (if v \<in> set keys then keys else keys @ [v])"

lemma skip_ws_ge: "index \<le> skip_ws content index"
proof (induction content index rule: skip_ws.induct)
  case (1 content index)
  show ?case
  proof (cases "index < length content \<and> is_space (content ! index)")
    case True
    with "1.IH" have "index + 1 \<le> skip_ws content (index + 1)" by simp
    moreover from True have "skip_ws content index = skip_ws content (index + 1)"
      by (subst skip_ws.simps) auto
    ultimately show ?thesis by simp
  next
    case False
    then have "skip_ws content index = index"
      by (subst skip_ws.simps) auto
    then show ?thesis by simp
  qed
qed

lemma match_at_bounds: "match_at content p = Some e \<Longrightarrow> p < e \<and> e \<le> length content"
  using skip_ws_ge [of "p + 2" content]
  by (auto simp: match_at_def split: if_splits)

lemma regex_exec_bounds:
  "regex_exec content p = Some (i, e) \<Longrightarrow> p < e \<and> e \<le> length content"
proof (induction content p rule: regex_exec.induct)
  case (1 content p)
  from "1.prems" have inside: "\<not> length content \<le> p"
    by (subst (asm) regex_exec.simps) (simp split: if_splits)
  show ?case
  proof (cases "match_at content p")
    case None
    with inside "1.prems" have "regex_exec content (p + 1) = Some (i, e)"
      by (subst (asm) regex_exec.simps) simp
    with "1.IH" [OF inside None] show ?thesis by simp
  next
    case (Some e')
    with inside "1.prems" have "e' = e"
      by (subst (asm) regex_exec.simps) simp
    with Some match_at_bounds [of content p e] show ?thesis by simp
  qed
qed

text \<open>
  The outer \<^verbatim>\<open>while\<close> loop: every \<^verbatim>\<open>continue\<close> resumes the search at
  \<^verbatim>\<open>lastIndex\<close>, the position after the parenthesis of the match.
\<close>

function scan_calls :: "js_string \<Rightarrow> nat \<Rightarrow> js_string list \<Rightarrow> js_string list" where
  "scan_calls content lastIndex keys =
     (case regex_exec content lastIndex of
        None \<Rightarrow> keys
      | Some (i, e) \<Rightarrow>
          scan_calls content e
            (case literal_at content e of None \<Rightarrow> keys | Some v \<Rightarrow> push_unique v keys))"
  by pat_completeness auto
termination
  by (relation "measure (\<lambda>(content, lastIndex, keys). length content - lastIndex)")
     (auto dest: regex_exec_bounds)

declare scan_calls.simps [simp del]

definition extractTrCallsFromFile :: "js_string \<Rightarrow> js_string list" where
  "extractTrCallsFromFile content = scan_calls content 0 []"

text \<open>
  extractAllTrKeys: the keys of every source file that the traversal found, in the order
  found, without duplicates, then sorted. The argument is the list of file contents;
  the directory traversal itself is not modelled.
\<close>

definition extractAllTrKeys :: "js_string list \<Rightarrow> js_string list" where
  "extractAllTrKeys sourceFiles =
     sort (fold (\<lambda>content allKeys. fold push_unique (extractTrCallsFromFile content) allKeys)
             sourceFiles [])"

section \<open>JavaScript objects\<close>

text \<open>
  The objects of both scripts are plain objects: created by \<^verbatim>\<open>{}\<close> or by
  \<^verbatim>\<open>JSON.parse\<close>, with \<^verbatim>\<open>Object.prototype\<close> as prototype. An object is modelled
  by the list of its own properties in enumeration order, which is the order of
  \<^verbatim>\<open>Object.keys\<close>, \<^verbatim>\<open>Object.entries\<close> and \<^verbatim>\<open>JSON.stringify\<close>: first the keys
  that are array indices, by ascending number, then the other keys in the order of
  their creation. A property holds a string or, where the scripts copy what they read
  from the prototype, a value that is not a string.
\<close>

datatype js_value = Str js_string | Inherited

type_synonym js_object = "(js_string \<times> js_value) list"

text \<open>
  The names of the properties of \<^verbatim>\<open>Object.prototype\<close>. Reading one of them from an
  object that has no own property of that name gives a function, and for
  \<^verbatim>\<open>__proto__\<close> the prototype itself: a value that is truthy and has no
  \<^verbatim>\<open>trim\<close> method.
\<close>

definition proto_members :: "js_string list" where
  "proto_members = map js
     [''constructor'', ''__defineGetter__'', ''__defineSetter__'', ''hasOwnProperty'',
      ''__lookupGetter__'', ''__lookupSetter__'', ''isPrototypeOf'', ''propertyIsEnumerable'',
      ''toString'', ''valueOf'', ''__proto__'', ''toLocaleString'']"

text \<open>\<^verbatim>\<open>obj[key]\<close>, with \<open>None\<close> for \<^verbatim>\<open>undefined\<close>.\<close>

definition get_prop :: "js_object \<Rightarrow> js_string \<Rightarrow> js_value option" where
  "get_prop obj key =
     (case map_of obj key of
        Some v \<Rightarrow> Some v
      | None \<Rightarrow> if key \<in> set proto_members then Some Inherited else None)"

text \<open>
  An array index is the decimal numeral, without sign or leading zero, of an integer
  from 0 to \<open>2\<^sup>3\<^sup>2 - 2\<close>.
\<close>

definition decimal :: "js_string \<Rightarrow> int" where
  "decimal k = foldl (\<lambda>n c. 10 * n + (c - 48)) 0 k"

definition is_array_index :: "js_string \<Rightarrow> bool" where
  "is_array_index k =
     (case k of
        [] \<Rightarrow> False
      | c # cs \<Rightarrow> list_all (\<lambda>d. 48 \<le> d \<and> d \<le> 57) k \<and> (c \<noteq> 48 \<or> cs = [])
                  \<and> decimal k \<le> 4294967294)"

text \<open>A new property whose key is an array index takes its place among the indices.\<close>

fun insert_index :: "js_string \<Rightarrow> js_value \<Rightarrow> js_object \<Rightarrow> js_object" where
  "insert_index k v [] = [(k, v)]"
| "insert_index k v (p # rest) =
     (if is_array_index (fst p) \<and> decimal (fst p) < decimal k
      then p # insert_index k v rest else (k, v) # p # rest)"

text \<open>
  \<^verbatim>\<open>obj[key] = v\<close>. An own property is overwritten in place. Otherwise the key
  \<^verbatim>\<open>__proto__\<close> reaches the setter of \<^verbatim>\<open>Object.prototype\<close>, which ignores a string
  and creates no property (the only other value that the scripts assign under this key
  is the prototype that the object already has). Every other key becomes a new own
  property.
\<close>

definition put_prop :: "js_string \<Rightarrow> js_value \<Rightarrow> js_object \<Rightarrow> js_object" where
  "put_prop key v obj =
     (if key \<in> fst ` set obj then AList.update key v obj
      else if key = js ''__proto__'' then obj
      else if is_array_index key then insert_index key v obj
      else obj @ [(key, v)])"

section \<open>Locale stores and the pending batch\<close>

text \<open>
  A file is modelled by what \<^verbatim>\<open>JSON.parse\<close> makes of its content: for a locale store
  the own properties of the parsed object, all with string values, in enumeration
  order (\<^verbatim>\<open>JSON.parse\<close> creates own properties, also for the key \<^verbatim>\<open>__proto__\<close>).
  Both scripts write with \<^verbatim>\<open>JSON.stringify(_, null, 2)\<close>, so two files written with
  the same list of properties have the same bytes. Writing a file always succeeds.
\<close>

type_synonym locale_id = js_string

type_synonym translation_map = "(js_string \<times> js_string) list"

datatype store_file = Absent | Malformed | Stored translation_map

datatype batch_entry = Translations translation_map | NotAnObject

datatype batch_file = NoBatch | BadBatch | Batch "(locale_id \<times> batch_entry) list"

record files =
  stores :: "locale_id \<Rightarrow> store_file"
  toTranslateFile :: batch_file

definition no_files :: files where
  "no_files = \<lparr>stores = (\<lambda>locale. Absent), toTranslateFile = NoBatch\<rparr>"

definition SUPPORTED_LOCALES :: "locale_id list" where
  "SUPPORTED_LOCALES = map js
     [''en'', ''de'', ''fr'', ''es'', ''sv'', ''pt-br'', ''it'', ''nl'', ''ja'', ''ko'',
      ''zh-cn'', ''zh-tw'', ''tr'', ''th'', ''pl'', ''ar'', ''da'', ''fi'', ''id'', ''ms'']"

definition CANONICAL_LOCALE :: locale_id where
  "CANONICAL_LOCALE = js ''en''"

text \<open>The object that \<^verbatim>\<open>JSON.parse\<close> returns for a locale store.\<close>

definition parsed :: "translation_map \<Rightarrow> js_object" where
  "parsed ts = map (\<lambda>(key, s). (key, Str s)) ts"

text \<open>
  What a file written with \<^verbatim>\<open>JSON.stringify\<close> holds: the own properties in
  enumeration order; a property whose value is a function is left out.
\<close>

definition stringified :: "js_object \<Rightarrow> translation_map" where
  "stringified obj =
     List.map_filter (\<lambda>(key, v). case v of Str s \<Rightarrow> Some (key, s) | Inherited \<Rightarrow> None) obj"

text \<open>
  saveTranslationFile (the same in both scripts): the keys are sorted, a fresh object
  receives them in that order by assignment, and the file is overwritten.
\<close>

definition saveTranslationFile :: "files \<Rightarrow> locale_id \<Rightarrow> js_object \<Rightarrow> files" where
  "saveTranslationFile fs locale translations =
     (let sortedKeys = sort (map fst translations);
          sortedTranslations =
            fold (\<lambda>key acc. case get_prop translations key of
                               Some v \<Rightarrow> put_prop key v acc
                             | None \<Rightarrow> acc)
              sortedKeys []
      in fs\<lparr>stores := (stores fs)(locale := Stored (stringified sortedTranslations))\<rparr>)"

section \<open>Synchronization (updateTranslations.js)\<close>

text \<open>
  loadTranslationFile of updateTranslations.js: whatever \<^verbatim>\<open>readFileSync\<close> or
  \<^verbatim>\<open>JSON.parse\<close> throws is caught, a warning is printed and \<^verbatim>\<open>{}\<close> is returned.
\<close>

definition update_loadTranslationFile :: "files \<Rightarrow> locale_id \<Rightarrow> js_object" where
  "update_loadTranslationFile fs locale =
     (case stores fs locale of
        Stored ts \<Rightarrow> parsed ts
      | Absent \<Rightarrow> []
      | Malformed \<Rightarrow> [])"

text \<open>\<^verbatim>\<open>existingValue || d\<close>, where \<open>d\<close> is a string.\<close>

definition or_else :: "js_value option \<Rightarrow> js_string \<Rightarrow> js_value" where
  "or_else existingValue d =
     (case existingValue of
        None \<Rightarrow> Str d
      | Some (Str s) \<Rightarrow> if s = [] then Str d else Str s
      | Some Inherited \<Rightarrow> Inherited)"

text \<open>
  \<^verbatim>\<open>toTranslate\<close> is an object whose keys are locales of \<^verbatim>\<open>SUPPORTED_LOCALES\<close>, none
  of which is an array index or a name of \<^verbatim>\<open>Object.prototype\<close>, and whose values
  are objects; it is the list of its properties in the order of their creation.
  \<^verbatim>\<open>if (!toTranslate[locale]) toTranslate[locale] = {}; toTranslate[locale][key] = ""\<close>
\<close>

definition set_pending ::
  "locale_id \<Rightarrow> js_string \<Rightarrow> (locale_id \<times> js_object) list \<Rightarrow> (locale_id \<times> js_object) list" where
  "set_pending locale key toTranslate =
     AList.update locale
       (put_prop key (Str [])
          (case map_of toTranslate locale of None \<Rightarrow> [] | Some obj \<Rightarrow> obj))
       toTranslate"

text \<open>
  One pass of the inner loop over \<^verbatim>\<open>extractedKeys\<close>, on the pair of
  \<^verbatim>\<open>updatedTranslations\<close> and \<^verbatim>\<open>toTranslate\<close>. \<open>None\<close> is the
  \<^verbatim>\<open>TypeError\<close> of \<^verbatim>\<open>existingValue.trim()\<close> on a value that is not a string; nothing
  catches it, and the run ends there.
\<close>

definition sync_key ::
  "js_string list \<Rightarrow> js_object \<Rightarrow> locale_id \<Rightarrow> js_string
     \<Rightarrow> js_object \<times> (locale_id \<times> js_object) list
     \<Rightarrow> (js_object \<times> (locale_id \<times> js_object) list) option" where
  "sync_key existingKeys currentTranslations locale key st =
     (case st of (updatedTranslations, toTranslate) \<Rightarrow>
        if key \<in> set existingKeys then
          (if locale = CANONICAL_LOCALE then
             Some (put_prop key (or_else (get_prop currentTranslations key) key) updatedTranslations,
                   toTranslate)
           else
             (case get_prop currentTranslations key of
                Some Inherited \<Rightarrow> None
              | Some (Str s) \<Rightarrow>
                  Some (put_prop key (or_else (Some (Str s)) []) updatedTranslations,
                        if blank s then set_pending locale key toTranslate else toTranslate)
              | None \<Rightarrow>
                  Some (put_prop key (or_else None []) updatedTranslations,
                        set_pending locale key toTranslate)))
        else
          (if locale = CANONICAL_LOCALE then
             Some (put_prop key (Str key) updatedTranslations, toTranslate)
           else
             Some (put_prop key (Str []) updatedTranslations,
                   set_pending locale key toTranslate)))"

text \<open>The inner loop; it stops at the first error.\<close>

fun sync_keys ::
  "js_string list \<Rightarrow> js_object \<Rightarrow> locale_id \<Rightarrow> js_string list
     \<Rightarrow> js_object \<times> (locale_id \<times> js_object) list
     \<Rightarrow> (js_object \<times> (locale_id \<times> js_object) list) option" where
  "sync_keys existingKeys currentTranslations locale [] st = Some st"
| "sync_keys existingKeys currentTranslations locale (key # keys) st =
     (case sync_key existingKeys currentTranslations locale key st of
        None \<Rightarrow> None
      | Some st' \<Rightarrow> sync_keys existingKeys currentTranslations locale keys st')"

text \<open>
  One pass of the loop over \<^verbatim>\<open>SUPPORTED_LOCALES\<close>: load, rebuild, save. \<open>Inl\<close> is
  the error, with the files as they are at that moment.
\<close>

definition sync_locale ::
  "js_string list \<Rightarrow> js_string list \<Rightarrow> locale_id
     \<Rightarrow> files \<times> (locale_id \<times> js_object) list
     \<Rightarrow> files + files \<times> (locale_id \<times> js_object) list" where
  "sync_locale existingKeys extractedKeys locale st =
     (case st of (fs, toTranslate) \<Rightarrow>
        (case sync_keys existingKeys (update_loadTranslationFile fs locale) locale
                extractedKeys ([], toTranslate) of
           None \<Rightarrow> Inl fs
         | Some (updatedTranslations, toTranslate') \<Rightarrow>
             Inr (saveTranslationFile fs locale updatedTranslations, toTranslate')))"

fun sync_locales ::
  "js_string list \<Rightarrow> js_string list \<Rightarrow> locale_id list
     \<Rightarrow> files \<times> (locale_id \<times> js_object) list
     \<Rightarrow> files + files \<times> (locale_id \<times> js_object) list" where
  "sync_locales existingKeys extractedKeys [] st = Inr st"
| "sync_locales existingKeys extractedKeys (locale # locales) st =
     (case sync_locale existingKeys extractedKeys locale st of
        Inl fs \<Rightarrow> Inl fs
      | Inr st' \<Rightarrow> sync_locales existingKeys extractedKeys locales st')"

text \<open>
  Steps 1 to 4 of main: the files after every store is rewritten, and the
  \<^verbatim>\<open>toTranslate\<close> object; or the files at the error. The lists \<^verbatim>\<open>removedKeys\<close>
  and \<^verbatim>\<open>newKeys\<close> are only printed and are left out.
\<close>

definition update_run ::
  "js_string list \<Rightarrow> files \<Rightarrow> files + files \<times> (locale_id \<times> js_object) list" where
  "update_run sourceFiles fs =
     (let extractedKeys = extractAllTrKeys sourceFiles;
          canonicalTranslations = update_loadTranslationFile fs CANONICAL_LOCALE;
          existingKeys = map fst canonicalTranslations
      in sync_locales existingKeys extractedKeys SUPPORTED_LOCALES (fs, []))"

datatype sync_outcome = Completed | TypeErrorThrown

text \<open>
  main of updateTranslations.js: the files it leaves and how it ends. In step 5 the
  batch is written when it has a locale; otherwise there is only a message.
\<close>

definition update_main :: "js_string list \<Rightarrow> files \<Rightarrow> files \<times> sync_outcome" where
  "update_main sourceFiles fs =
     (case update_run sourceFiles fs of
        Inl fs' \<Rightarrow> (fs', TypeErrorThrown)
      | Inr (fs', toTranslate) \<Rightarrow>
          (if toTranslate \<noteq> []
           then fs'\<lparr>toTranslateFile :=
                     Batch (map (\<lambda>(locale, obj). (locale, Translations (stringified obj)))
                              toTranslate)\<rparr>
           else fs',
           Completed))"

section \<open>Merge (mergeTranslations.js)\<close>

datatype load_error = CouldNotLoad locale_id

text \<open>loadTranslationFile of mergeTranslations.js: every failure is thrown again.\<close>

definition merge_loadTranslationFile :: "files \<Rightarrow> locale_id \<Rightarrow> load_error + js_object" where
  "merge_loadTranslationFile fs locale =
     (case stores fs locale of
        Stored ts \<Rightarrow> Inr (parsed ts)
      | Absent \<Rightarrow> Inl (CouldNotLoad locale)
      | Malformed \<Rightarrow> Inl (CouldNotLoad locale))"

text \<open>The report line \<^verbatim>\<open>`${locale}: "${key}"`\<close>.\<close>

definition report_item :: "locale_id \<Rightarrow> js_string \<Rightarrow> js_string" where
  "report_item locale key = locale @ js '': '' @ [dquote] @ key @ [dquote]"

text \<open>
  The validation loop, on the pair of \<^verbatim>\<open>hasEmptyTranslations\<close> and
  \<^verbatim>\<open>allEmptyTranslations\<close>; \<open>Inl\<close> is the exit on an entry that is not an object.
\<close>

fun validate ::
  "(locale_id \<times> batch_entry) list \<Rightarrow> bool \<times> js_string list \<Rightarrow> locale_id + bool \<times> js_string list" where
  "validate [] st = Inr st"
| "validate ((locale, NotAnObject) # rest) st = Inl locale"
| "validate ((locale, Translations ts) # rest) (hasEmptyTranslations, allEmptyTranslations) =
     (let emptyTranslations = filter (\<lambda>(key, v). blank v) ts
      in if length emptyTranslations > 0
         then validate rest
                (True, allEmptyTranslations @ map (\<lambda>(key, v). report_item locale key) emptyTranslations)
         else validate rest (hasEmptyTranslations, allEmptyTranslations))"

text \<open>
  The loop over the entries of one locale of the batch: the assignment and the count.
\<close>

definition merge_entry :: "js_string \<times> js_string \<Rightarrow> js_object \<times> nat \<Rightarrow> js_object \<times> nat" where
  "merge_entry kv st =
     (case (kv, st) of ((key, v), (currentTranslations, mergedCount)) \<Rightarrow>
        if \<not> blank v then (put_prop key (Str v) currentTranslations, mergedCount + 1)
        else (currentTranslations, mergedCount))"

text \<open>
  The body of the merge loop for one locale. The error of the load is caught inside the
  loop: it is printed and the loop goes on with the next locale.
\<close>

definition merge_locale :: "locale_id \<Rightarrow> translation_map \<Rightarrow> files \<times> nat \<Rightarrow> files \<times> nat" where
  "merge_locale locale newTranslations st =
     (case st of (fs, totalMerged) \<Rightarrow>
        (case merge_loadTranslationFile fs locale of
           Inl err \<Rightarrow> (fs, totalMerged)
         | Inr currentTranslations \<Rightarrow>
             (case fold merge_entry newTranslations (currentTranslations, 0) of
                (merged, mergedCount) \<Rightarrow>
                  (saveTranslationFile fs locale merged, totalMerged + mergedCount))))"

definition merge_step :: "locale_id \<times> batch_entry \<Rightarrow> files \<times> nat \<Rightarrow> files \<times> nat" where
  "merge_step le st =
     (case le of
        (locale, Translations newTranslations) \<Rightarrow> merge_locale locale newTranslations st
      | (locale, NotAnObject) \<Rightarrow> st)"

datatype merge_outcome =
    NoBatchFound
  | BatchUnreadable
  | InvalidFormat locale_id
  | NotFullyTranslated "js_string list"
  | Finished nat

text \<open>
  main of mergeTranslations.js: the files it leaves and how it ends. The first four
  outcomes are the exits with status 1; \<open>Finished n\<close> is the normal end with
  \<^verbatim>\<open>totalMerged = n\<close>. An entry that is not an object cannot reach the merge loop.
\<close>

definition merge_main :: "files \<Rightarrow> files \<times> merge_outcome" where
  "merge_main fs =
     (case toTranslateFile fs of
        NoBatch \<Rightarrow> (fs, NoBatchFound)
      | BadBatch \<Rightarrow> (fs, BatchUnreadable)
      | Batch toTranslateData \<Rightarrow>
          (case validate toTranslateData (False, []) of
             Inl locale \<Rightarrow> (fs, InvalidFormat locale)
           | Inr (hasEmptyTranslations, allEmptyTranslations) \<Rightarrow>
               if hasEmptyTranslations then (fs, NotFullyTranslated allEmptyTranslations)
               else (case fold merge_step toTranslateData (fs, 0) of
                       (fs', totalMerged) \<Rightarrow>
                         if totalMerged > 0
                         then (fs'\<lparr>toTranslateFile := NoBatch\<rparr>, Finished totalMerged)
                         else (fs', Finished totalMerged))))"

section \<open>Example states\<close>




text \<open>Source files for the runs of the synchronizer below.\<close>

definition one_key_source :: "js_string list" where
  "one_key_source = [js ''<p>{tr(\"Hello\")}</p>'']"

definition two_key_sources :: "js_string list" where
  "two_key_sources = [js ''a = tr(\"Hello\"); b = tr(\"Bye\");'', js ''c = tr(\"Bye\");'']"

definition proto_sources :: "js_string list" where
  "proto_sources = [js ''a = tr(\"Hello\"); b = tr(\"__proto__\");'']"

text \<open>A canonical store whose text for \<^verbatim>\<open>Hello\<close> is not the key.\<close>

definition howdy_example :: files where
  "howdy_example =
     no_files\<lparr>stores := (stores no_files)(js ''en'' := Stored [(js ''Hello'', js ''Howdy'')])\<rparr>"

text \<open>
  A store \<^verbatim>\<open>fr.json\<close> with a translation of \<^verbatim>\<open>Hello\<close>, a key that the canonical
  store \<^verbatim>\<open>en.json\<close> does not have.
\<close>

definition orphan_example :: files where
  "orphan_example =
     no_files\<lparr>stores := (stores no_files)
       (js ''en'' := Stored [(js ''Bye'', js ''Bye'')],
        js ''fr'' := Stored [(js ''Bye'', js ''Au revoir''), (js ''Hello'', js ''Bonjour'')])\<rparr>"

text \<open>A batch left by an earlier run, and no locale store.\<close>

definition stale_example :: files where
  "stale_example =
     no_files\<lparr>toTranslateFile := Batch [(js ''fr'', Translations [(js ''Old label'', [])])]\<rparr>"

text \<open>
  A store \<^verbatim>\<open>fr.json\<close> whose text for \<^verbatim>\<open>Hello\<close> is a space and a no-break space,
  with and without the key in the canonical store.
\<close>

definition space_example :: files where
  "space_example =
     no_files\<lparr>stores := (stores no_files)
       (js ''en'' := Stored [(js ''Hello'', js ''Hello'')],
        js ''fr'' := Stored [(js ''Hello'', [32, 160])])\<rparr>"

definition space_new_example :: files where
  "space_new_example =
     no_files\<lparr>stores := (stores no_files)(js ''fr'' := Stored [(js ''Hello'', [32, 160])])\<rparr>"

text \<open>A locale store \<^verbatim>\<open>fr.json\<close> that exists and does not parse; nothing else exists.\<close>

definition malformed_fr :: files where
  "malformed_fr = no_files\<lparr>stores := (stores no_files)(js ''fr'' := Malformed)\<rparr>"

text \<open>
  A batch with two blank entries, in two locales, next to a translated one; one blank
  text is a space, the other a no-break space.
\<close>

definition blank_example :: files where
  "blank_example =
     no_files\<lparr>stores := (stores no_files)(js ''fr'' := Stored [(js ''Hello'', [])]),
              toTranslateFile :=
                Batch [(js ''fr'', Translations [(js ''Hello'', js ''Bonjour''), (js ''Bye'', [32])]),
                       (js ''de'', Translations [(js ''Hello'', [160])])]\<rparr>"

text \<open>
  A completed batch for \<^verbatim>\<open>fr\<close>, and a store \<^verbatim>\<open>fr.json\<close> that has the key
  \<^verbatim>\<open>__proto__\<close> beside the key to translate.
\<close>

definition proto_store_example :: files where
  "proto_store_example =
     no_files\<lparr>stores := (stores no_files)
                (js ''fr'' := Stored [(js ''__proto__'', js ''x''), (js ''Hello'', [])]),
              toTranslateFile := Batch [(js ''fr'', Translations [(js ''Hello'', js ''Bonjour'')])]\<rparr>"

text \<open>A batch whose only entry has the key \<^verbatim>\<open>__proto__\<close>.\<close>

definition proto_batch_example :: files where
  "proto_batch_example =
     no_files\<lparr>stores := (stores no_files)(js ''fr'' := Stored [(js ''Hello'', js ''Salut'')]),
              toTranslateFile := Batch [(js ''fr'', Translations [(js ''__proto__'', js ''x'')])]\<rparr>"

section \<open>Facts about the scanner\<close>














section \<open>Facts about objects and saved files\<close>

text \<open>The key \<^verbatim>\<open>__proto__\<close>.\<close>

definition proto_key :: js_string where
  "proto_key = js ''__proto__''"

lemma map_of_insert_index:
  "k \<notin> fst ` set obj \<Longrightarrow> map_of (insert_index k v obj) = (map_of obj)(k \<mapsto> v)"
proof (induction obj)
  case Nil
  show ?case by simp
next
  case (Cons p obj)
  then have "fst p \<noteq> k" and "k \<notin> fst ` set obj" by auto
  with Cons.IH show ?case
    by (cases p) (auto simp: fun_upd_twist)
qed

lemma keys_insert_index: "fst ` set (insert_index k v obj) = insert k (fst ` set obj)"
  by (induction obj) auto

lemma distinct_insert_index:
  "distinct (map fst obj) \<Longrightarrow> k \<notin> fst ` set obj \<Longrightarrow> distinct (map fst (insert_index k v obj))"
proof (induction obj)
  case Nil
  show ?case by simp
next
  case (Cons p obj)
  then have ih: "distinct (map fst (insert_index k v obj))" by simp
  from Cons.prems have "fst p \<notin> fst ` set (insert_index k v obj)"
    by (auto simp: keys_insert_index)
  with ih Cons.prems show ?case by auto
qed

lemma map_of_append_fresh:
  "k \<notin> fst ` set obj \<Longrightarrow> map_of (obj @ [(k, v)]) = (map_of obj)(k \<mapsto> v)"
  by (induction obj) (auto simp: fun_upd_twist)

lemma map_of_put_prop:
  "map_of (put_prop k v obj) =
     (if k \<notin> fst ` set obj \<and> k = proto_key then map_of obj else (map_of obj)(k \<mapsto> v))"
proof (cases "k \<in> fst ` set obj")
  case True
  then show ?thesis by (simp add: put_prop_def update_conv')
next
  case False
  then show ?thesis
    by (simp add: put_prop_def proto_key_def map_of_insert_index map_of_append_fresh
          del: map_of_append)
qed

lemma keys_put_prop:
  "fst ` set (put_prop k v obj) =
     (if k \<notin> fst ` set obj \<and> k = proto_key then fst ` set obj else insert k (fst ` set obj))"
  by (auto simp: put_prop_def proto_key_def dom_update keys_insert_index)

lemma distinct_put_prop:
  "distinct (map fst obj) \<Longrightarrow> distinct (map fst (put_prop k v obj))"
  by (auto simp: put_prop_def distinct_update distinct_insert_index)

lemma put_prop_proto [simp]: "proto_key \<notin> fst ` set obj \<Longrightarrow> put_prop proto_key v obj = obj"
  by (simp add: put_prop_def proto_key_def)

lemma map_of_parsed: "map_of (parsed ts) k = map_option Str (map_of ts k)"
  by (induction ts) (auto simp: parsed_def)

lemma get_prop_own: "k \<in> fst ` set obj \<Longrightarrow> get_prop obj k = map_of obj k"
  by (cases "map_of obj k") (auto simp: get_prop_def map_of_eq_None_iff)

lemma stringified_Nil [simp]: "stringified [] = []"
  by (simp add: stringified_def map_filter_simps)

lemma stringified_Cons:
  "stringified ((k, v) # obj) =
     (case v of Str s \<Rightarrow> (k, s) # stringified obj | Inherited \<Rightarrow> stringified obj)"
  by (cases v) (simp_all add: stringified_def map_filter_simps)

lemma keys_stringified: "fst ` set (stringified obj) \<subseteq> fst ` set obj"
proof (induction obj)
  case Nil
  show ?case by simp
next
  case (Cons p obj)
  then show ?case
    by (cases p; cases "snd p") (auto simp: stringified_Cons)
qed

lemma map_of_stringified:
  "distinct (map fst obj) \<Longrightarrow>
   map_of (stringified obj) k = (case map_of obj k of Some (Str s) \<Rightarrow> Some s | _ \<Rightarrow> None)"
proof (induction obj)
  case Nil
  show ?case by simp
next
  case (Cons p obj)
  obtain k' v where p: "p = (k', v)" by (cases p)
  from Cons.prems p have fresh: "k' \<notin> fst ` set obj" and d: "distinct (map fst obj)" by auto
  from fresh keys_stringified [of obj] have "map_of (stringified obj) k' = None"
    by (auto simp: map_of_eq_None_iff)
  with Cons.IH [OF d] p show ?case
    by (cases v) (auto simp: stringified_Cons)
qed

text \<open>The entries of the file that saveTranslationFile writes for an object.\<close>

definition saved_entries :: "js_object \<Rightarrow> translation_map" where
  "saved_entries obj =
     stringified
       (fold (\<lambda>key acc. case get_prop obj key of Some v \<Rightarrow> put_prop key v acc | None \<Rightarrow> acc)
          (sort (map fst obj)) [])"

lemma save_stores:
  "stores (saveTranslationFile fs l obj) = (stores fs)(l := Stored (saved_entries obj))"
  by (simp add: saveTranslationFile_def saved_entries_def Let_def)

lemma saved_batch: "toTranslateFile (saveTranslationFile fs l obj) = toTranslateFile fs"
  by (simp add: saveTranslationFile_def Let_def)

lemma sorted_copy:
  assumes "set ks \<subseteq> fst ` set obj"
  shows "proto_key \<notin> fst ` set acc \<Longrightarrow> distinct (map fst acc) \<Longrightarrow>
         (let r = fold (\<lambda>key acc. case get_prop obj key of Some v \<Rightarrow> put_prop key v acc | None \<Rightarrow> acc) ks acc
          in proto_key \<notin> fst ` set r \<and> distinct (map fst r)
             \<and> (\<forall>k. map_of r k = (if k \<in> set ks \<and> k \<noteq> proto_key then map_of obj k else map_of acc k)))"
  using assms
proof (induction ks arbitrary: acc)
  case Nil
  then show ?case by simp
next
  case (Cons a ks)
  from Cons.prems(3) have own: "a \<in> fst ` set obj" and rest: "set ks \<subseteq> fst ` set obj" by simp_all
  from own obtain v where v: "map_of obj a = Some v"
    by (metis map_of_eq_None_iff not_Some_eq)
  with own have g: "get_prop obj a = Some v" by (simp add: get_prop_own)
  let ?acc = "put_prop a v acc"
  from Cons.prems(1) have p: "proto_key \<notin> fst ` set ?acc"
    by (auto simp: keys_put_prop)
  from Cons.prems(2) have d: "distinct (map fst ?acc)" by (rule distinct_put_prop)
  have m: "map_of ?acc k = (if a = proto_key then map_of acc k else ((map_of acc)(a \<mapsto> v)) k)" for k
    using Cons.prems(1) by (auto simp: map_of_put_prop)
  from Cons.IH [OF p d rest] show ?case
    by (auto simp: g Let_def m v)
qed

lemma map_of_saved_entries:
  "map_of (saved_entries obj) k =
     (if k = proto_key then None
      else case map_of obj k of Some (Str s) \<Rightarrow> Some s | _ \<Rightarrow> None)"
proof -
  let ?r = "fold (\<lambda>key acc. case get_prop obj key of Some v \<Rightarrow> put_prop key v acc | None \<Rightarrow> acc)
              (sort (map fst obj)) []"
  from sorted_copy [of "sort (map fst obj)" obj "[]"]
  have r: "distinct (map fst ?r)"
    "\<And>k. map_of ?r k = (if k \<in> fst ` set obj \<and> k \<noteq> proto_key then map_of obj k else None)"
    by (simp_all add: Let_def)
  have "map_of (saved_entries obj) k = (case map_of ?r k of Some (Str s) \<Rightarrow> Some s | _ \<Rightarrow> None)"
    unfolding saved_entries_def by (rule map_of_stringified [OF r(1)])
  also have "\<dots> = (if k = proto_key then None
      else case map_of obj k of Some (Str s) \<Rightarrow> Some s | _ \<Rightarrow> None)"
  proof (cases "k \<in> fst ` set obj")
    case True
    then show ?thesis by (simp add: r(2))
  next
    case False
    then have "map_of obj k = None" by (simp add: map_of_eq_None_iff)
    with False show ?thesis by (simp add: r(2))
  qed
  finally show ?thesis .
qed

section \<open>Facts about the rebuild of a store\<close>

text \<open>The text with which the synchronizer seeds a key, and the value it assigns.\<close>

definition seed_text :: "locale_id \<Rightarrow> js_string \<Rightarrow> js_string" where
  "seed_text l k = (if l = CANONICAL_LOCALE then k else [])"

definition rebuilt_value :: "js_string list \<Rightarrow> js_object \<Rightarrow> locale_id \<Rightarrow> js_string \<Rightarrow> js_value" where
  "rebuilt_value ek cur l k =
     (if k \<in> set ek then or_else (get_prop cur k) (seed_text l k) else Str (seed_text l k))"

text \<open>Whether the synchronizer fails at a key of a locale.\<close>

definition fails_at :: "js_string list \<Rightarrow> js_object \<Rightarrow> locale_id \<Rightarrow> js_string \<Rightarrow> bool" where
  "fails_at ek cur l k \<longleftrightarrow>
     l \<noteq> CANONICAL_LOCALE \<and> k \<in> set ek \<and> get_prop cur k = Some Inherited"

text \<open>Whether the synchronizer puts a key of a locale into the batch.\<close>

definition needs_translation :: "js_string list \<Rightarrow> js_object \<Rightarrow> locale_id \<Rightarrow> js_string \<Rightarrow> bool" where
  "needs_translation ek cur l k \<longleftrightarrow>
     l \<noteq> CANONICAL_LOCALE
     \<and> (k \<notin> set ek \<or> (case get_prop cur k of
                           None \<Rightarrow> True | Some (Str s) \<Rightarrow> blank s | Some Inherited \<Rightarrow> False))"

text \<open>The object \<^verbatim>\<open>updatedTranslations\<close> at the end of the inner loop.\<close>

definition rebuilt_object :: "js_string list \<Rightarrow> js_string list \<Rightarrow> locale_id \<Rightarrow> js_object \<Rightarrow> js_object" where
  "rebuilt_object ek keys l cur = fold (\<lambda>k. put_prop k (rebuilt_value ek cur l k)) keys []"

lemma sync_key_apply:
  "sync_key ek cur l k (upd, tt) =
     (if fails_at ek cur l k then None
      else Some (put_prop k (rebuilt_value ek cur l k) upd,
                 if needs_translation ek cur l k then set_pending l k tt else tt))"
  by (cases "get_prop cur k"; cases "the (get_prop cur k)")
     (auto simp: sync_key_def rebuilt_value_def seed_text_def needs_translation_def fails_at_def
        or_else_def)

lemma sync_keys_Some:
  "sync_keys ek cur l keys (upd, tt) = Some (upd', tt') \<Longrightarrow>
   upd' = fold (\<lambda>k. put_prop k (rebuilt_value ek cur l k)) keys upd
   \<and> (\<forall>k \<in> set keys. \<not> fails_at ek cur l k)"
proof (induction keys arbitrary: upd tt)
  case Nil
  then show ?case by simp
next
  case (Cons k keys)
  from Cons.prems have ok: "\<not> fails_at ek cur l k"
    by (auto simp: sync_key_apply split: if_splits)
  with Cons.prems have "sync_keys ek cur l keys
      (put_prop k (rebuilt_value ek cur l k) upd,
       if needs_translation ek cur l k then set_pending l k tt else tt) = Some (upd', tt')"
    by (simp add: sync_key_apply)
  from Cons.IH [OF this] ok show ?case by simp
qed


lemma fold_put_map_of:
  "proto_key \<notin> fst ` set upd \<Longrightarrow>
   map_of (fold (\<lambda>k. put_prop k (val k)) keys upd) k' =
     (if k' \<in> set keys \<and> k' \<noteq> proto_key then Some (val k') else map_of upd k')"
proof (induction keys arbitrary: upd)
  case Nil
  show ?case by simp
next
  case (Cons k keys)
  from Cons.prems have p: "proto_key \<notin> fst ` set (put_prop k (val k) upd)"
    by (auto simp: keys_put_prop)
  from Cons.IH [OF p] Cons.prems show ?case
    by (auto simp: map_of_put_prop)
qed

lemma map_of_rebuilt_object:
  "map_of (rebuilt_object ek keys l cur) k =
     (if k \<in> set keys \<and> k \<noteq> proto_key then Some (rebuilt_value ek cur l k) else None)"
  unfolding rebuilt_object_def by (subst fold_put_map_of) simp_all

lemma map_of_rebuilt_store:
  "map_of (saved_entries (rebuilt_object ek keys l cur)) k =
     (if k \<in> set keys \<and> k \<noteq> proto_key
      then (case rebuilt_value ek cur l k of Str s \<Rightarrow> Some s | Inherited \<Rightarrow> None)
      else None)"
  by (simp add: map_of_saved_entries map_of_rebuilt_object split: js_value.splits)

lemma sync_locale_Inr:
  assumes "sync_locale ek keys l (fs, tt) = Inr (fs', tt')"
  shows "fs' = saveTranslationFile fs l (rebuilt_object ek keys l (update_loadTranslationFile fs l))"
    and "\<forall>k \<in> set keys. \<not> fails_at ek (update_loadTranslationFile fs l) l k"
proof -
  let ?cur = "update_loadTranslationFile fs l"
  from assms obtain upd where s: "sync_keys ek ?cur l keys ([], tt) = Some (upd, tt')"
    and fs': "fs' = saveTranslationFile fs l upd"
    by (auto simp: sync_locale_def split: option.splits)
  from sync_keys_Some [OF s] fs'
  show "fs' = saveTranslationFile fs l (rebuilt_object ek keys l ?cur)"
    and "\<forall>k \<in> set keys. \<not> fails_at ek ?cur l k"
    by (simp_all add: rebuilt_object_def)
qed

lemma load_after_save:
  "l' \<noteq> l \<Longrightarrow>
   update_loadTranslationFile (saveTranslationFile fs l obj) l' = update_loadTranslationFile fs l'"
  by (simp add: update_loadTranslationFile_def save_stores)

lemma sync_locales_Inr:
  "sync_locales ek keys ls (fs, tt) = Inr (fs', tt') \<Longrightarrow> distinct ls \<Longrightarrow>
   toTranslateFile fs' = toTranslateFile fs
   \<and> (\<forall>l. stores fs' l =
         (if l \<in> set ls
          then Stored (saved_entries (rebuilt_object ek keys l (update_loadTranslationFile fs l)))
          else stores fs l))
   \<and> (\<forall>l \<in> set ls. \<forall>k \<in> set keys. \<not> fails_at ek (update_loadTranslationFile fs l) l k)"
proof (induction ls arbitrary: fs tt)
  case Nil
  then show ?case by simp
next
  case (Cons a ls)
  from Cons.prems(1) obtain fs1 tt1 where
    step: "sync_locale ek keys a (fs, tt) = Inr (fs1, tt1)"
    and rest: "sync_locales ek keys ls (fs1, tt1) = Inr (fs', tt')"
    by (auto split: sum.splits)
  from sync_locale_Inr [OF step]
  have fs1: "fs1 = saveTranslationFile fs a (rebuilt_object ek keys a (update_loadTranslationFile fs a))"
    and ok: "\<forall>k \<in> set keys. \<not> fails_at ek (update_loadTranslationFile fs a) a k"
    by simp_all
  from Cons.prems(2) have d: "distinct ls" and a: "a \<notin> set ls" by simp_all
  have other: "update_loadTranslationFile fs1 l = update_loadTranslationFile fs l" if "l \<noteq> a" for l
    using that by (simp add: fs1 load_after_save)
  from Cons.IH [OF rest d]
  have ih: "toTranslateFile fs' = toTranslateFile fs1"
    "\<And>l. stores fs' l =
         (if l \<in> set ls
          then Stored (saved_entries (rebuilt_object ek keys l (update_loadTranslationFile fs1 l)))
          else stores fs1 l)"
    "\<forall>l \<in> set ls. \<forall>k \<in> set keys. \<not> fails_at ek (update_loadTranslationFile fs1 l) l k"
    by simp_all
  have "toTranslateFile fs' = toTranslateFile fs"
    by (simp add: ih(1) fs1 saved_batch)
  moreover have "stores fs' l =
         (if l \<in> set (a # ls)
          then Stored (saved_entries (rebuilt_object ek keys l (update_loadTranslationFile fs l)))
          else stores fs l)" for l
  proof (cases "l = a")
    case True
    with a show ?thesis by (simp add: ih(2) fs1 save_stores)
  next
    case False
    with other [OF False] show ?thesis by (simp add: ih(2) fs1 save_stores)
  qed
  moreover have "\<forall>l \<in> set (a # ls). \<forall>k \<in> set keys. \<not> fails_at ek (update_loadTranslationFile fs l) l k"
  proof
    fix l
    assume "l \<in> set (a # ls)"
    show "\<forall>k \<in> set keys. \<not> fails_at ek (update_loadTranslationFile fs l) l k"
    proof (cases "l = a")
      case True
      with ok show ?thesis by simp
    next
      case False
      with \<open>l \<in> set (a # ls)\<close> have "l \<in> set ls" by simp
      with ih(3) other [OF False] show ?thesis by metis
    qed
  qed
  ultimately show ?case by blast
qed

lemma distinct_SUPPORTED_LOCALES: "distinct SUPPORTED_LOCALES"
  by code_simp

text \<open>The text of a key in a store file; none when the file is absent or does not parse.\<close>

definition stored_text :: "store_file \<Rightarrow> js_string \<Rightarrow> js_string option" where
  "stored_text sf k = (case sf of Stored ts \<Rightarrow> map_of ts k | Absent \<Rightarrow> None | Malformed \<Rightarrow> None)"

lemma get_prop_load_own:
  "stored_text (stores fs l) k = Some s \<Longrightarrow> get_prop (update_loadTranslationFile fs l) k = Some (Str s)"
  by (cases "stores fs l")
     (auto simp: stored_text_def update_loadTranslationFile_def get_prop_def map_of_parsed)

lemma map_of_load:
  "map_of (update_loadTranslationFile fs l) k = map_option Str (stored_text (stores fs l) k)"
  by (cases "stores fs l") (auto simp: stored_text_def update_loadTranslationFile_def map_of_parsed)

lemma keys_load:
  "k \<in> fst ` set (update_loadTranslationFile fs l) \<longleftrightarrow> stored_text (stores fs l) k \<noteq> None"
proof -
  have "k \<in> fst ` set (update_loadTranslationFile fs l)
          \<longleftrightarrow> map_of (update_loadTranslationFile fs l) k \<noteq> None"
    by (simp add: map_of_eq_None_iff)
  then show ?thesis by (simp add: map_of_load)
qed

text \<open>What a run that completes leaves in the stores.\<close>

lemma update_main_completed:
  assumes "update_main sourceFiles fs = (fs', Completed)"
  shows "stores fs' l =
           (if l \<in> set SUPPORTED_LOCALES
            then Stored (saved_entries (rebuilt_object
                    (map fst (update_loadTranslationFile fs CANONICAL_LOCALE))
                    (extractAllTrKeys sourceFiles) l (update_loadTranslationFile fs l)))
            else stores fs l)"
    and "l \<in> set SUPPORTED_LOCALES \<Longrightarrow> k \<in> set (extractAllTrKeys sourceFiles) \<Longrightarrow>
         \<not> fails_at (map fst (update_loadTranslationFile fs CANONICAL_LOCALE))
              (update_loadTranslationFile fs l) l k"
proof -
  let ?ek = "map fst (update_loadTranslationFile fs CANONICAL_LOCALE)"
  let ?keys = "extractAllTrKeys sourceFiles"
  from assms obtain fs1 tt where run: "sync_locales ?ek ?keys SUPPORTED_LOCALES (fs, []) = Inr (fs1, tt)"
    and st: "stores fs' = stores fs1"
    by (auto simp: update_main_def update_run_def Let_def split: sum.splits if_splits)
  from sync_locales_Inr [OF run distinct_SUPPORTED_LOCALES] st
  show "stores fs' l =
           (if l \<in> set SUPPORTED_LOCALES
            then Stored (saved_entries (rebuilt_object ?ek ?keys l (update_loadTranslationFile fs l)))
            else stores fs l)"
    and "l \<in> set SUPPORTED_LOCALES \<Longrightarrow> k \<in> set ?keys \<Longrightarrow>
         \<not> fails_at ?ek (update_loadTranslationFile fs l) l k"
    by simp_all
qed

lemma rebuilt_value_completed:
  assumes ok: "\<not> fails_at (map fst (update_loadTranslationFile fs CANONICAL_LOCALE))
                   (update_loadTranslationFile fs l) l k"
  shows "rebuilt_value (map fst (update_loadTranslationFile fs CANONICAL_LOCALE))
           (update_loadTranslationFile fs l) l k =
         Str (if stored_text (stores fs CANONICAL_LOCALE) k \<noteq> None
              then (case stored_text (stores fs l) k of
                      Some v \<Rightarrow> if v \<noteq> [] then v else seed_text l k
                    | None \<Rightarrow> seed_text l k)
              else seed_text l k)"
proof (cases "stored_text (stores fs CANONICAL_LOCALE) k")
  case None
  then have "k \<notin> set (map fst (update_loadTranslationFile fs CANONICAL_LOCALE))"
    by (simp add: keys_load)
  with None show ?thesis by (simp add: rebuilt_value_def)
next
  case (Some c)
  then have ek: "k \<in> set (map fst (update_loadTranslationFile fs CANONICAL_LOCALE))"
    by (simp add: keys_load)
  show ?thesis
  proof (cases "stored_text (stores fs l) k")
    case (Some v)
    from get_prop_load_own [OF this] ek Some \<open>stored_text (stores fs CANONICAL_LOCALE) k = Some c\<close>
    show ?thesis by (simp add: rebuilt_value_def or_else_def)
  next
    case None
    with Some have l: "l \<noteq> CANONICAL_LOCALE" by auto
    from None have own: "map_of (update_loadTranslationFile fs l) k = None"
      by (simp add: map_of_load)
    with ok ek l have "k \<notin> set proto_members"
      by (auto simp: fails_at_def get_prop_def)
    with own have "get_prop (update_loadTranslationFile fs l) k = None"
      by (simp add: get_prop_def)
    with ek None Some show ?thesis by (simp add: rebuilt_value_def or_else_def)
  qed
qed

text \<open>The text of every key, other than \<^verbatim>\<open>__proto__\<close>, after a run that completes.\<close>

lemma completed_text:
  assumes run: "update_main sourceFiles fs = (fs', Completed)"
    and l: "l \<in> set SUPPORTED_LOCALES"
  shows "\<exists>ts. stores fs' l = Stored ts
           \<and> (\<forall>k. map_of ts k =
                 (if k \<in> set (extractAllTrKeys sourceFiles) \<and> k \<noteq> proto_key
                  then Some (if stored_text (stores fs CANONICAL_LOCALE) k \<noteq> None
                             then (case stored_text (stores fs l) k of
                                     Some v \<Rightarrow> if v \<noteq> [] then v else seed_text l k
                                   | None \<Rightarrow> seed_text l k)
                             else seed_text l k)
                  else None))"
proof -
  let ?ek = "map fst (update_loadTranslationFile fs CANONICAL_LOCALE)"
  let ?cur = "update_loadTranslationFile fs l"
  let ?ts = "saved_entries (rebuilt_object ?ek (extractAllTrKeys sourceFiles) l ?cur)"
  from update_main_completed(1) [OF run, of l] l have st: "stores fs' l = Stored ?ts" by simp
  have "map_of ?ts k =
                 (if k \<in> set (extractAllTrKeys sourceFiles) \<and> k \<noteq> proto_key
                  then Some (if stored_text (stores fs CANONICAL_LOCALE) k \<noteq> None
                             then (case stored_text (stores fs l) k of
                                     Some v \<Rightarrow> if v \<noteq> [] then v else seed_text l k
                                   | None \<Rightarrow> seed_text l k)
                             else seed_text l k)
                  else None)" for k
  proof (cases "k \<in> set (extractAllTrKeys sourceFiles) \<and> k \<noteq> proto_key")
    case False
    then show ?thesis by (auto simp: map_of_rebuilt_store)
  next
    case True
    with update_main_completed(2) [OF run l, of k]
    have "\<not> fails_at ?ek ?cur l k" by simp
    from rebuilt_value_completed [OF this] True show ?thesis
      by (simp add: map_of_rebuilt_store)
  qed
  with st show ?thesis by blast
qed

lemma completed_keys:
  assumes run: "update_main sourceFiles fs = (fs', Completed)"
    and l: "l \<in> set SUPPORTED_LOCALES"
  shows "\<exists>ts. stores fs' l = Stored ts
           \<and> fst ` set ts = set (extractAllTrKeys sourceFiles) - {proto_key}"
proof -
  from completed_text [OF run l] obtain ts where ts: "stores fs' l = Stored ts"
    "\<And>k. map_of ts k \<noteq> None \<longleftrightarrow> k \<in> set (extractAllTrKeys sourceFiles) \<and> k \<noteq> proto_key"
    by auto
  have "fst ` set ts = dom (map_of ts)" by (simp add: dom_map_of_conv_image_fst)
  also have "\<dots> = set (extractAllTrKeys sourceFiles) - {proto_key}"
    using ts(2) by (auto simp: dom_def)
  finally show ?thesis using ts(1) by blast
qed

section \<open>Facts about the batch that the synchronizer assembles\<close>

text \<open>A key of a locale is in the batch, with empty text.\<close>

definition is_pending :: "(locale_id \<times> js_object) list \<Rightarrow> locale_id \<Rightarrow> js_string \<Rightarrow> bool" where
  "is_pending tt l k \<longleftrightarrow> (\<exists>obj. map_of tt l = Some obj \<and> map_of obj k = Some (Str []))"

lemma set_pending_sets: "k \<noteq> proto_key \<Longrightarrow> is_pending (set_pending l k tt) l k"
  by (simp add: is_pending_def set_pending_def update_conv' map_of_put_prop)

lemma set_pending_keeps: "is_pending tt l' k' \<Longrightarrow> is_pending (set_pending l k tt) l' k'"
  by (auto simp: is_pending_def set_pending_def update_conv' map_of_put_prop)

lemma sync_keys_pending_keeps:
  "sync_keys ek cur l keys (upd, tt) = Some (upd', tt') \<Longrightarrow> is_pending tt l' k' \<Longrightarrow>
   is_pending tt' l' k'"
proof (induction keys arbitrary: upd tt)
  case Nil
  then show ?case by simp
next
  case (Cons k keys)
  from Cons.prems(1) obtain upd1 tt1 where
    step: "sync_key ek cur l k (upd, tt) = Some (upd1, tt1)"
    and rest: "sync_keys ek cur l keys (upd1, tt1) = Some (upd', tt')"
    by (auto split: option.splits)
  from step Cons.prems(2) have "is_pending tt1 l' k'"
    by (auto simp: sync_key_apply set_pending_keeps split: if_splits)
  from Cons.IH [OF rest this] show ?case .
qed

lemma sync_keys_pending_sets:
  "sync_keys ek cur l keys (upd, tt) = Some (upd', tt') \<Longrightarrow> k \<in> set keys \<Longrightarrow>
   k \<noteq> proto_key \<Longrightarrow> needs_translation ek cur l k \<Longrightarrow> is_pending tt' l k"
proof (induction keys arbitrary: upd tt)
  case Nil
  then show ?case by simp
next
  case (Cons a keys)
  from Cons.prems(1) obtain upd1 tt1 where
    step: "sync_key ek cur l a (upd, tt) = Some (upd1, tt1)"
    and rest: "sync_keys ek cur l keys (upd1, tt1) = Some (upd', tt')"
    by (auto split: option.splits)
  show ?case
  proof (cases "k = a")
    case True
    with step Cons.prems(3,4) have "is_pending tt1 l k"
      by (auto simp: sync_key_apply set_pending_sets split: if_splits)
    from sync_keys_pending_keeps [OF rest this] show ?thesis .
  next
    case False
    with Cons.prems(2) have "k \<in> set keys" by simp
    from Cons.IH [OF rest this Cons.prems(3,4)] show ?thesis .
  qed
qed

lemma sync_locale_pending:
  assumes "sync_locale ek keys l (fs, tt) = Inr (fs', tt')"
  shows "is_pending tt l' k' \<Longrightarrow> is_pending tt' l' k'"
    and "k \<in> set keys \<Longrightarrow> k \<noteq> proto_key \<Longrightarrow>
         needs_translation ek (update_loadTranslationFile fs l) l k \<Longrightarrow> is_pending tt' l k"
proof -
  from assms obtain upd where
    s: "sync_keys ek (update_loadTranslationFile fs l) l keys ([], tt) = Some (upd, tt')"
    by (auto simp: sync_locale_def split: option.splits)
  show "is_pending tt l' k' \<Longrightarrow> is_pending tt' l' k'"
    by (rule sync_keys_pending_keeps [OF s])
  show "k \<in> set keys \<Longrightarrow> k \<noteq> proto_key \<Longrightarrow>
         needs_translation ek (update_loadTranslationFile fs l) l k \<Longrightarrow> is_pending tt' l k"
    by (rule sync_keys_pending_sets [OF s])
qed

lemma sync_locales_pending_keeps:
  "sync_locales ek keys ls (fs, tt) = Inr (fs', tt') \<Longrightarrow> is_pending tt l' k' \<Longrightarrow>
   is_pending tt' l' k'"
proof (induction ls arbitrary: fs tt)
  case Nil
  then show ?case by simp
next
  case (Cons a ls)
  from Cons.prems(1) obtain fs1 tt1 where
    step: "sync_locale ek keys a (fs, tt) = Inr (fs1, tt1)"
    and rest: "sync_locales ek keys ls (fs1, tt1) = Inr (fs', tt')"
    by (auto split: sum.splits)
  from sync_locale_pending(1) [OF step Cons.prems(2)] have "is_pending tt1 l' k'" .
  from Cons.IH [OF rest this] show ?case .
qed

lemma sync_locales_pending_sets:
  "sync_locales ek keys ls (fs, tt) = Inr (fs', tt') \<Longrightarrow> l \<in> set ls \<Longrightarrow> distinct ls \<Longrightarrow>
   k \<in> set keys \<Longrightarrow> k \<noteq> proto_key \<Longrightarrow>
   needs_translation ek (update_loadTranslationFile fs l) l k \<Longrightarrow> is_pending tt' l k"
proof (induction ls arbitrary: fs tt)
  case Nil
  then show ?case by simp
next
  case (Cons a ls)
  from Cons.prems(1) obtain fs1 tt1 where
    step: "sync_locale ek keys a (fs, tt) = Inr (fs1, tt1)"
    and rest: "sync_locales ek keys ls (fs1, tt1) = Inr (fs', tt')"
    by (auto split: sum.splits)
  show ?case
  proof (cases "l = a")
    case True
    with sync_locale_pending(2) [OF step Cons.prems(4,5)] Cons.prems(6)
    have "is_pending tt1 l k" by simp
    from sync_locales_pending_keeps [OF rest this] show ?thesis .
  next
    case False
    with Cons.prems have in_ls: "l \<in> set ls" and d: "distinct ls" by simp_all
    from sync_locale_Inr(1) [OF step] False
    have "update_loadTranslationFile fs1 l = update_loadTranslationFile fs l"
      by (simp add: load_after_save)
    with Cons.prems(6) have "needs_translation ek (update_loadTranslationFile fs1 l) l k" by simp
    from Cons.IH [OF rest in_ls d Cons.prems(4,5) this] show ?thesis .
  qed
qed

lemma map_of_stringified_Str:
  "map_of obj k = Some (Str s) \<Longrightarrow> map_of (stringified obj) k = Some s"
proof (induction obj)
  case Nil
  then show ?case by simp
next
  case (Cons p obj)
  obtain k' v where p: "p = (k', v)" by (cases p)
  with Cons show ?case
    by (cases v) (auto simp: stringified_Cons split: if_splits)
qed

lemma update_main_batch_pending:
  assumes run: "update_main sourceFiles fs = (fs', Completed)"
    and "l \<in> set SUPPORTED_LOCALES" and "k \<in> set (extractAllTrKeys sourceFiles)"
    and "k \<noteq> proto_key"
    and "needs_translation (map fst (update_loadTranslationFile fs CANONICAL_LOCALE))
           (update_loadTranslationFile fs l) l k"
  shows "\<exists>b pend. toTranslateFile fs' = Batch b
            \<and> map_of b l = Some (Translations pend) \<and> map_of pend k = Some []"
proof -
  let ?ek = "map fst (update_loadTranslationFile fs CANONICAL_LOCALE)"
  let ?keys = "extractAllTrKeys sourceFiles"
  from run obtain fs1 tt where r: "sync_locales ?ek ?keys SUPPORTED_LOCALES (fs, []) = Inr (fs1, tt)"
    by (auto simp: update_main_def update_run_def Let_def split: sum.splits)
  from sync_locales_pending_sets [OF r assms(2) distinct_SUPPORTED_LOCALES assms(3,4,5)]
  obtain obj where obj: "map_of tt l = Some obj" "map_of obj k = Some (Str [])"
    by (auto simp: is_pending_def)
  then have ne: "tt \<noteq> []" by auto
  have "map_of (map (\<lambda>(locale, obj). (locale, Translations (stringified obj))) tt) l
          = Some (Translations (stringified obj))"
    using obj(1) by (simp add: map_of_map)
  moreover from run r ne have "toTranslateFile fs' =
      Batch (map (\<lambda>(locale, obj). (locale, Translations (stringified obj))) tt)"
    by (auto simp: update_main_def update_run_def Let_def)
  ultimately show ?thesis using map_of_stringified_Str [OF obj(2)] by blast
qed

section \<open>Facts about a second run\<close>




lemma en_supported: "CANONICAL_LOCALE \<in> set SUPPORTED_LOCALES"
  by code_simp


section \<open>Facts about stores that do not load\<close>

lemma load_save:
  "update_loadTranslationFile (saveTranslationFile fs l obj) l' =
     (if l' = l then parsed (saved_entries obj) else update_loadTranslationFile fs l')"
  by (simp add: update_loadTranslationFile_def save_stores)

lemma sync_locales_same_loads:
  "\<forall>l. update_loadTranslationFile fs1 l = update_loadTranslationFile fs2 l \<Longrightarrow>
   isl (sync_locales ek keys ls (fs1, tt)) = isl (sync_locales ek keys ls (fs2, tt))
   \<and> (\<forall>f1 t1 f2 t2. sync_locales ek keys ls (fs1, tt) = Inr (f1, t1)
          \<and> sync_locales ek keys ls (fs2, tt) = Inr (f2, t2) \<longrightarrow> t1 = t2)"
proof (induction ls arbitrary: fs1 fs2 tt)
  case Nil
  show ?case by simp
next
  case (Cons a ls)
  from Cons.prems have cur: "update_loadTranslationFile fs1 a = update_loadTranslationFile fs2 a"
    by simp
  show ?case
  proof (cases "sync_keys ek (update_loadTranslationFile fs1 a) a keys ([], tt)")
    case None
    with cur show ?thesis by (simp add: sync_locale_def)
  next
    case (Some st)
    obtain upd tt1 where st: "st = (upd, tt1)" by (cases st)
    from Some st cur have steps:
      "sync_locale ek keys a (fs1, tt) = Inr (saveTranslationFile fs1 a upd, tt1)"
      "sync_locale ek keys a (fs2, tt) = Inr (saveTranslationFile fs2 a upd, tt1)"
      by (simp_all add: sync_locale_def)
    from Cons.prems have "\<forall>l. update_loadTranslationFile (saveTranslationFile fs1 a upd) l
                              = update_loadTranslationFile (saveTranslationFile fs2 a upd) l"
      by (simp add: load_save)
    from Cons.IH [OF this, of tt1] steps show ?thesis by simp
  qed
qed

lemma update_main_same_loads:
  assumes "\<forall>l. update_loadTranslationFile fs1 l = update_loadTranslationFile fs2 l"
  shows "snd (update_main sourceFiles fs1) = snd (update_main sourceFiles fs2)"
proof -
  let ?ek = "map fst (update_loadTranslationFile fs1 CANONICAL_LOCALE)"
  let ?r1 = "sync_locales ?ek (extractAllTrKeys sourceFiles) SUPPORTED_LOCALES (fs1, [])"
  let ?r2 = "sync_locales ?ek (extractAllTrKeys sourceFiles) SUPPORTED_LOCALES (fs2, [])"
  from sync_locales_same_loads [OF assms] have "isl ?r1 = isl ?r2" by blast
  moreover have "snd (update_main sourceFiles fs1) = (if isl ?r1 then TypeErrorThrown else Completed)"
    by (cases ?r1) (auto simp: update_main_def update_run_def Let_def)
  moreover from assms have "snd (update_main sourceFiles fs2) = (if isl ?r2 then TypeErrorThrown else Completed)"
    by (cases ?r2) (auto simp: update_main_def update_run_def Let_def)
  ultimately show ?thesis by simp
qed

section \<open>Facts about the merge\<close>

lemma merge_locale_unparsed:
  assumes "\<forall>ts. stores fs l \<noteq> Stored ts"
  shows "stores (fst (merge_locale l' new (fs, n))) l = stores fs l"
proof (cases "l' = l")
  case True
  with assms show ?thesis
    by (cases "stores fs l") (simp_all add: merge_locale_def merge_loadTranslationFile_def)
next
  case False
  then show ?thesis
    by (cases "stores fs l'")
       (simp_all add: merge_locale_def merge_loadTranslationFile_def save_stores split: prod.splits)
qed

lemma merge_steps_unparsed:
  "\<forall>ts. stores (fst st) l \<noteq> Stored ts \<Longrightarrow>
   stores (fst (fold merge_step b st)) l = stores (fst st) l"
proof (induction b arbitrary: st)
  case Nil
  show ?case by simp
next
  case (Cons le b)
  obtain fs n where st: "st = (fs, n)" by (cases st)
  obtain l' e where le: "le = (l', e)" by (cases le)
  from Cons.prems st have same: "stores (fst (merge_step le st)) l = stores (fst st) l"
    by (cases e) (simp_all add: le merge_step_def merge_locale_unparsed)
  with Cons.prems have "\<forall>ts. stores (fst (merge_step le st)) l \<noteq> Stored ts" by simp
  from Cons.IH [OF this] same show ?case by simp
qed

lemma merge_main_unparsed:
  assumes "\<forall>ts. stores fs l \<noteq> Stored ts"
  shows "stores (fst (merge_main fs)) l = stores fs l"
proof -
  have "stores fs' l = stores fs l" if "fold merge_step b (fs, 0) = (fs', n)" for b fs' n
    using merge_steps_unparsed [of "(fs, 0)" l b] assms that by simp
  then show ?thesis
    by (auto simp: merge_main_def split: batch_file.splits sum.splits prod.splits)
qed

text \<open>The report lines of all blank entries of a batch, in the order of the batch.\<close>

fun offending :: "(locale_id \<times> batch_entry) list \<Rightarrow> js_string list" where
  "offending [] = []"
| "offending ((l, NotAnObject) # rest) = offending rest"
| "offending ((l, Translations ts) # rest) =
     map (\<lambda>(key, v). report_item l key) (filter (\<lambda>(key, v). blank v) ts) @ offending rest"

lemma validate_well_shaped:
  "\<forall>(l, e) \<in> set b. e \<noteq> NotAnObject \<Longrightarrow>
   validate b (h, acc) = Inr (h \<or> offending b \<noteq> [], acc @ offending b)"
proof (induction b "(h, acc)" arbitrary: h acc rule: validate.induct)
  case 1
  show ?case by simp
next
  case (2 l rest)
  then show ?case by simp
next
  case (3 l ts rest h acc)
  show ?case
  proof (cases "filter (\<lambda>(key, v). blank v) ts = []")
    case True
    with "3.prems" "3.hyps"(2) [of "filter (\<lambda>(key, v). blank v) ts"] show ?thesis by simp
  next
    case False
    with "3.prems" "3.hyps"(1) [of "filter (\<lambda>(key, v). blank v) ts"] show ?thesis by auto
  qed
qed

lemma set_offending:
  "set (offending b) =
     {l @ [58, 32, 34] @ k @ [34] | l k ts v.
        (l, Translations ts) \<in> set b \<and> (k, v) \<in> set ts \<and> blank v}"
proof (induction b rule: offending.induct)
  case 1
  show ?case by simp
next
  case (2 l rest)
  then show ?case by auto
next
  case (3 l ts rest)
  have line: "report_item l k = l @ [58, 32, 34] @ k @ [34]" for k
    by (simp add: report_item_def js_def dquote_def)
  have "set (map (\<lambda>(key, v). report_item l key) (filter (\<lambda>(key, v). blank v) ts))
          = {l @ [58, 32, 34] @ k @ [34] | k v. (k, v) \<in> set ts \<and> blank v}"
    by (force simp: line)
  with 3 show ?case by auto
qed

section \<open>The examples, evaluated\<close>

text \<open>The batch that a run assembles, when it gets as far as step 5.\<close>

definition assembled_batch :: "js_string list \<Rightarrow> files \<Rightarrow> (locale_id \<times> js_object) list option" where
  "assembled_batch sourceFiles fs =
     (case update_run sourceFiles fs of Inl fs' \<Rightarrow> None | Inr (fs', toTranslate) \<Rightarrow> Some toTranslate)"

lemma completed_pair:
  "snd (update_main sourceFiles fs) = Completed \<Longrightarrow>
   update_main sourceFiles fs = (fst (update_main sourceFiles fs), Completed)"
  by (simp add: prod_eq_iff)

lemma proto_key_js: "proto_key = js ''__proto__''"
  by (simp add: proto_key_def)

lemma fr_supported: "js ''fr'' \<in> set SUPPORTED_LOCALES"
  by code_simp

lemma two_keys: "extractAllTrKeys two_key_sources = [js ''Bye'', js ''Hello'']"
  by code_simp

lemma one_key: "extractAllTrKeys one_key_source = [js ''Hello'']"
  by code_simp

lemma orphan_completes: "snd (update_main two_key_sources orphan_example) = Completed"
  by code_simp

section \<open>The claims\<close>

text \<open>
  C1 says that after a run that completes, the store of every supported locale has
  exactly the extracted keys. The code at a source file with the calls
  \<^verbatim>\<open>tr("Hello")\<close> and \<^verbatim>\<open>tr("__proto__")\<close>, with no file present: both keys are
  extracted, the run completes, and the stores of \<^verbatim>\<open>en\<close> and \<^verbatim>\<open>fr\<close> hold
  \<^verbatim>\<open>Hello\<close> only, because the assignment \<^verbatim>\<open>updatedTranslations[key] = ...\<close> creates
  no property for the key \<^verbatim>\<open>__proto__\<close>.
\<close>

theorem proto_key_dropped:
  "extractAllTrKeys proto_sources = [js ''Hello'', js ''__proto__'']
   \<and> snd (update_main proto_sources no_files) = Completed
   \<and> stores (fst (update_main proto_sources no_files)) (js ''en'') = Stored [(js ''Hello'', js ''Hello'')]
   \<and> stores (fst (update_main proto_sources no_files)) (js ''fr'') = Stored [(js ''Hello'', [])]"
  by code_simp

text \<open>
  C2: a batch (every locale of it an object) with at least one entry whose text is empty
  or only white space is rejected: the merge ends in the report of untranslated entries,
  every file, locale stores and batch alike, is as it was, and the report has, for
  every blank entry of every locale of the batch, the line made of the locale, a colon,
  a space and the key in double quotes (58, 32 and 34 are the colon, the space and the
  quote), and no other line.
\<close>

theorem blank_batch_rejected:
  assumes batch: "toTranslateFile fs = Batch b"
    and shape: "\<forall>(l, e) \<in> set b. e \<noteq> NotAnObject"
    and entry: "(l0, Translations ts0) \<in> set b" "(k0, v0) \<in> set ts0" "blank v0"
  shows "\<exists>report. merge_main fs = (fs, NotFullyTranslated report)
           \<and> set report =
               {l @ [58, 32, 34] @ k @ [34] | l k ts v.
                  (l, Translations ts) \<in> set b \<and> (k, v) \<in> set ts \<and> blank v}"
proof -
  from entry have "l0 @ [58, 32, 34] @ k0 @ [34] \<in> set (offending b)"
    unfolding set_offending by blast
  then have ne: "offending b \<noteq> []" by auto
  from validate_well_shaped [OF shape, of False "[]"] ne
  have "validate b (False, []) = Inr (True, offending b)" by simp
  with batch have "merge_main fs = (fs, NotFullyTranslated (offending b))"
    by (simp add: merge_main_def)
  with set_offending [of b] show ?thesis by blast
qed

text \<open>
  The theorem at a batch with blank entries in two locales, one a space and one a
  no-break space: both are reported, the translated entry is not.
\<close>

theorem blank_batch_rejected_witness:
  "toTranslateFile blank_example =
     Batch [(js ''fr'', Translations [(js ''Hello'', js ''Bonjour''), (js ''Bye'', [32])]),
            (js ''de'', Translations [(js ''Hello'', [160])])]
   \<and> blank [32] \<and> blank [160]
   \<and> merge_main blank_example =
       (blank_example, NotFullyTranslated [js ''fr: \"Bye\"'', js ''de: \"Hello\"''])"
proof -
  let ?fr = "[(js ''Hello'', js ''Bonjour''), (js ''Bye'', [32])]"
  let ?de = "[(js ''Hello'', [160])]"
  let ?b = "[(js ''fr'', Translations ?fr), (js ''de'', Translations ?de)]"
  have b: "toTranslateFile blank_example = Batch ?b"
    by (simp add: blank_example_def)
  have shape: "\<forall>(l, e) \<in> set ?b. e \<noteq> NotAnObject" by simp
  have bl: "blank [32]" "blank [160]" by code_simp+
  have e1: "(js ''fr'', Translations ?fr) \<in> set ?b" by simp
  have e2: "(js ''Bye'', [32]) \<in> set ?fr" by simp
  from blank_batch_rejected [OF b shape e1 e2 bl(1)]
  obtain report where r: "merge_main blank_example = (blank_example, NotFullyTranslated report)"
    by blast
  have "snd (merge_main blank_example) = NotFullyTranslated [js ''fr: \"Bye\"'', js ''de: \"Hello\"'']"
    by code_simp
  with r have "report = [js ''fr: \"Bye\"'', js ''de: \"Hello\"'']" by simp
  with b bl r show ?thesis by simp
qed




text \<open>
  C4, as claimed: a key that existed in the prior store of the locale itself keeps the
  text it had there. The code does otherwise at this input: \<^verbatim>\<open>Hello\<close> is in the
  prior \<^verbatim>\<open>fr.json\<close> with the text \<^verbatim>\<open>Bonjour\<close>, but not in the prior
  \<^verbatim>\<open>en.json\<close>; the run completes and the rebuilt \<^verbatim>\<open>fr.json\<close> has the empty text
  for it.
\<close>

theorem carry_forward_counterexample:
  "extractAllTrKeys two_key_sources = [js ''Bye'', js ''Hello'']
   \<and> stores orphan_example (js ''fr'') = Stored [(js ''Bye'', js ''Au revoir''), (js ''Hello'', js ''Bonjour'')]
   \<and> snd (update_main two_key_sources orphan_example) = Completed
   \<and> stores (fst (update_main two_key_sources orphan_example)) (js ''fr'')
       = Stored [(js ''Bye'', js ''Au revoir''), (js ''Hello'', [])]"
  by code_simp

text \<open>
  C4, amended: after a run that completes, for every supported locale and every
  extracted key other than \<^verbatim>\<open>__proto__\<close>, the rebuilt store has the prior text of
  that locale for the key when the key existed in the prior store of the canonical
  locale and that prior text is not empty; in every other case the key is seeded, with
  the key itself in the canonical locale and with the empty text in the other locales.
  A store that is absent or does not parse has no text for any key.
\<close>

theorem rebuilt_text_of_key:
  assumes "snd (update_main sourceFiles fs) = Completed"
    and "l \<in> set SUPPORTED_LOCALES" and "k \<in> set (extractAllTrKeys sourceFiles)"
    and "k \<noteq> js ''__proto__''"
  shows "\<exists>ts. stores (fst (update_main sourceFiles fs)) l = Stored ts
            \<and> map_of ts k = Some
                (if stored_text (stores fs CANONICAL_LOCALE) k \<noteq> None
                 then (case stored_text (stores fs l) k of
                         Some v \<Rightarrow> if v \<noteq> [] then v
                                   else if l = CANONICAL_LOCALE then k else []
                       | None \<Rightarrow> if l = CANONICAL_LOCALE then k else [])
                 else if l = CANONICAL_LOCALE then k else [])"
proof -
  from completed_text [OF completed_pair [OF assms(1)] assms(2)]
  obtain ts where ts: "stores (fst (update_main sourceFiles fs)) l = Stored ts"
    and look: "map_of ts k =
                 (if k \<in> set (extractAllTrKeys sourceFiles) \<and> k \<noteq> proto_key
                  then Some (if stored_text (stores fs CANONICAL_LOCALE) k \<noteq> None
                             then (case stored_text (stores fs l) k of
                                     Some v \<Rightarrow> if v \<noteq> [] then v else seed_text l k
                                   | None \<Rightarrow> seed_text l k)
                             else seed_text l k)
                  else None)"
    by auto
  from look assms(3,4) have "map_of ts k = Some
                (if stored_text (stores fs CANONICAL_LOCALE) k \<noteq> None
                 then (case stored_text (stores fs l) k of
                         Some v \<Rightarrow> if v \<noteq> [] then v
                                   else if l = CANONICAL_LOCALE then k else []
                       | None \<Rightarrow> if l = CANONICAL_LOCALE then k else [])
                 else if l = CANONICAL_LOCALE then k else [])"
    by (cases "stored_text (stores fs l) k") (simp_all add: seed_text_def proto_key_js)
  with ts show ?thesis by blast
qed

text \<open>The theorem at \<^verbatim>\<open>fr\<close> and the key \<^verbatim>\<open>Bye\<close>, which both prior stores have.\<close>

theorem rebuilt_text_of_key_witness:
  "snd (update_main two_key_sources orphan_example) = Completed
   \<and> js ''fr'' \<in> set SUPPORTED_LOCALES \<and> js ''Bye'' \<in> set (extractAllTrKeys two_key_sources)
   \<and> js ''Bye'' \<noteq> js ''__proto__''
   \<and> stored_text (stores orphan_example CANONICAL_LOCALE) (js ''Bye'') = Some (js ''Bye'')
   \<and> stored_text (stores orphan_example (js ''fr'')) (js ''Bye'') = Some (js ''Au revoir'')
   \<and> (\<exists>ts. stores (fst (update_main two_key_sources orphan_example)) (js ''fr'') = Stored ts
          \<and> map_of ts (js ''Bye'') = Some (js ''Au revoir''))"
proof -
  have k: "js ''Bye'' \<in> set (extractAllTrKeys two_key_sources)" by (simp add: two_keys)
  have p: "js ''Bye'' \<noteq> js ''__proto__''" by code_simp
  have c: "stored_text (stores orphan_example CANONICAL_LOCALE) (js ''Bye'') = Some (js ''Bye'')"
    by code_simp
  have f: "stored_text (stores orphan_example (js ''fr'')) (js ''Bye'') = Some (js ''Au revoir'')"
    by code_simp
  have a: "js ''Au revoir'' \<noteq> []" by code_simp
  from rebuilt_text_of_key [OF orphan_completes fr_supported k p] orphan_completes fr_supported k p c f a
  show ?thesis by simp
qed

text \<open>
  C5, as claimed: after a run the canonical store maps every extracted key to itself,
  whatever it held before. The code does otherwise at this input: the canonical store
  held \<^verbatim>\<open>Howdy\<close> for the key \<^verbatim>\<open>Hello\<close>, and still does after the run.
\<close>

theorem canonical_identity_counterexample:
  "extractAllTrKeys one_key_source = [js ''Hello'']
   \<and> snd (update_main one_key_source howdy_example) = Completed
   \<and> stores (fst (update_main one_key_source howdy_example)) CANONICAL_LOCALE
       = Stored [(js ''Hello'', js ''Howdy'')]"
  by code_simp

text \<open>
  C5, amended: after a run that completes, the canonical store maps every extracted key
  other than \<^verbatim>\<open>__proto__\<close> to the text the canonical store held for it before the
  run when that text was not empty, and to the key itself otherwise (the key was not
  there, or its text was empty).
\<close>

theorem canonical_text_of_key:
  assumes "snd (update_main sourceFiles fs) = Completed"
    and "k \<in> set (extractAllTrKeys sourceFiles)" and "k \<noteq> js ''__proto__''"
  shows "\<exists>ts. stores (fst (update_main sourceFiles fs)) CANONICAL_LOCALE = Stored ts
            \<and> map_of ts k = Some
                (case stored_text (stores fs CANONICAL_LOCALE) k of
                   Some v \<Rightarrow> if v \<noteq> [] then v else k
                 | None \<Rightarrow> k)"
proof -
  from completed_text [OF completed_pair [OF assms(1)] en_supported]
  obtain ts where ts: "stores (fst (update_main sourceFiles fs)) CANONICAL_LOCALE = Stored ts"
    and look: "map_of ts k =
                 (if k \<in> set (extractAllTrKeys sourceFiles) \<and> k \<noteq> proto_key
                  then Some (if stored_text (stores fs CANONICAL_LOCALE) k \<noteq> None
                             then (case stored_text (stores fs CANONICAL_LOCALE) k of
                                     Some v \<Rightarrow> if v \<noteq> [] then v else seed_text CANONICAL_LOCALE k
                                   | None \<Rightarrow> seed_text CANONICAL_LOCALE k)
                             else seed_text CANONICAL_LOCALE k)
                  else None)"
    by auto
  from look assms(2,3) have "map_of ts k = Some
                (case stored_text (stores fs CANONICAL_LOCALE) k of
                   Some v \<Rightarrow> if v \<noteq> [] then v else k
                 | None \<Rightarrow> k)"
    by (cases "stored_text (stores fs CANONICAL_LOCALE) k") (simp_all add: seed_text_def proto_key_js)
  with ts show ?thesis by blast
qed

text \<open>The theorem at a key that is new to the canonical store.\<close>

theorem canonical_text_of_key_witness:
  "snd (update_main two_key_sources orphan_example) = Completed
   \<and> js ''Hello'' \<in> set (extractAllTrKeys two_key_sources) \<and> js ''Hello'' \<noteq> js ''__proto__''
   \<and> stored_text (stores orphan_example CANONICAL_LOCALE) (js ''Hello'') = None
   \<and> (\<exists>ts. stores (fst (update_main two_key_sources orphan_example)) CANONICAL_LOCALE = Stored ts
          \<and> map_of ts (js ''Hello'') = Some (js ''Hello''))"
proof -
  have k: "js ''Hello'' \<in> set (extractAllTrKeys two_key_sources)" by (simp add: two_keys)
  have p: "js ''Hello'' \<noteq> js ''__proto__''" by code_simp
  have c: "stored_text (stores orphan_example CANONICAL_LOCALE) (js ''Hello'') = None"
    by code_simp
  from canonical_text_of_key [OF orphan_completes k p] orphan_completes k p c
  show ?thesis by simp
qed

text \<open>
  C6, as claimed: loading a store gives the empty mapping when the file is absent, and
  reports a fatal condition, distinct from absence, when the file exists and does not
  decode, stopping before anything is written. The code does otherwise at this input:
  the synchronizer reads a malformed \<^verbatim>\<open>fr.json\<close> as the empty mapping, exactly as
  it reads an absent one, completes and overwrites the file; and the loader of the
  merge script raises an error for an absent file.
\<close>

theorem load_malformed_counterexample:
  "update_loadTranslationFile malformed_fr (js ''fr'') = []
   \<and> update_loadTranslationFile malformed_fr (js ''fr'') = update_loadTranslationFile no_files (js ''fr'')
   \<and> snd (update_main one_key_source malformed_fr) = Completed
   \<and> stores (fst (update_main one_key_source malformed_fr)) (js ''fr'') = Stored [(js ''Hello'', [])]
   \<and> merge_loadTranslationFile no_files (js ''fr'') = Inl (CouldNotLoad (js ''fr''))"
  by code_simp

text \<open>
  C6, amended: for a store that is absent or does not decode, the loader of the
  synchronizer returns the empty mapping; the run ends as it ends with an empty store
  in its place, and when it completes it has overwritten the store of a supported
  locale with the extracted keys (other than \<^verbatim>\<open>__proto__\<close>), each with its seed
  text. The loader of the merge script raises an error in both cases; the merge
  catches it and leaves that store as it was.
\<close>

theorem unreadable_store_is_empty_store:
  assumes "stores fs l = Absent \<or> stores fs l = Malformed"
  shows "update_loadTranslationFile fs l = []
       \<and> snd (update_main sourceFiles fs)
           = snd (update_main sourceFiles (fs\<lparr>stores := (stores fs)(l := Stored [])\<rparr>))
       \<and> (l \<in> set SUPPORTED_LOCALES \<and> snd (update_main sourceFiles fs) = Completed \<longrightarrow>
            (\<exists>ts. stores (fst (update_main sourceFiles fs)) l = Stored ts
                 \<and> fst ` set ts = set (extractAllTrKeys sourceFiles) - {js ''__proto__''}
                 \<and> (\<forall>k \<in> fst ` set ts. map_of ts k = Some (if l = CANONICAL_LOCALE then k else []))))
       \<and> merge_loadTranslationFile fs l = Inl (CouldNotLoad l)
       \<and> stores (fst (merge_main fs)) l = stores fs l"
proof -
  from assms have load: "update_loadTranslationFile fs l = []"
    by (auto simp: update_loadTranslationFile_def)
  have "\<forall>l'. update_loadTranslationFile fs l'
              = update_loadTranslationFile (fs\<lparr>stores := (stores fs)(l := Stored [])\<rparr>) l'"
    using load by (simp add: update_loadTranslationFile_def parsed_def)
  then have same: "snd (update_main sourceFiles fs)
           = snd (update_main sourceFiles (fs\<lparr>stores := (stores fs)(l := Stored [])\<rparr>))"
    by (rule update_main_same_loads)
  from assms have none: "stored_text (stores fs l) k = None" for k
    by (auto simp: stored_text_def)
  have over: "\<exists>ts. stores (fst (update_main sourceFiles fs)) l = Stored ts
                 \<and> fst ` set ts = set (extractAllTrKeys sourceFiles) - {js ''__proto__''}
                 \<and> (\<forall>k \<in> fst ` set ts. map_of ts k = Some (if l = CANONICAL_LOCALE then k else []))"
    if l: "l \<in> set SUPPORTED_LOCALES" and run: "snd (update_main sourceFiles fs) = Completed"
  proof -
    note pair = completed_pair [OF run]
    from completed_text [OF pair l]
    obtain ts where ts: "stores (fst (update_main sourceFiles fs)) l = Stored ts"
      and look: "\<And>k. map_of ts k =
                 (if k \<in> set (extractAllTrKeys sourceFiles) \<and> k \<noteq> proto_key
                  then Some (seed_text l k) else None)"
      by (auto simp: none)
    from completed_keys [OF pair l] ts
    have keys: "fst ` set ts = set (extractAllTrKeys sourceFiles) - {js ''__proto__''}"
      by (simp add: proto_key_js)
    have "\<forall>k \<in> fst ` set ts. map_of ts k = Some (if l = CANONICAL_LOCALE then k else [])"
      unfolding keys by (simp add: look proto_key_js seed_text_def)
    with ts keys show ?thesis by blast
  qed
  from assms have merge_load: "merge_loadTranslationFile fs l = Inl (CouldNotLoad l)"
    by (auto simp: merge_loadTranslationFile_def)
  from assms have "\<forall>ts. stores fs l \<noteq> Stored ts" by auto
  then have "stores (fst (merge_main fs)) l = stores fs l"
    by (rule merge_main_unparsed)
  with load same over merge_load show ?thesis by blast
qed

text \<open>The theorem at the malformed \<^verbatim>\<open>fr.json\<close> and one source key.\<close>

theorem unreadable_store_is_empty_store_witness:
  "stores malformed_fr (js ''fr'') = Malformed
   \<and> js ''fr'' \<in> set SUPPORTED_LOCALES
   \<and> snd (update_main one_key_source malformed_fr) = Completed
   \<and> update_loadTranslationFile malformed_fr (js ''fr'') = []
   \<and> (\<exists>ts. stores (fst (update_main one_key_source malformed_fr)) (js ''fr'') = Stored ts
          \<and> fst ` set ts = {js ''Hello''}
          \<and> map_of ts (js ''Hello'') = Some [])
   \<and> merge_loadTranslationFile malformed_fr (js ''fr'') = Inl (CouldNotLoad (js ''fr''))
   \<and> stores (fst (merge_main malformed_fr)) (js ''fr'') = Malformed"
proof -
  have m: "stores malformed_fr (js ''fr'') = Malformed" by code_simp
  then have a: "stores malformed_fr (js ''fr'') = Absent \<or> stores malformed_fr (js ''fr'') = Malformed"
    by simp
  have run: "snd (update_main one_key_source malformed_fr) = Completed" by code_simp
  have l: "js ''fr'' \<noteq> CANONICAL_LOCALE" by code_simp
  have p: "js ''Hello'' \<noteq> js ''__proto__''" by code_simp
  from unreadable_store_is_empty_store [OF a, of one_key_source] fr_supported run
  obtain ts where ts: "stores (fst (update_main one_key_source malformed_fr)) (js ''fr'') = Stored ts"
    "fst ` set ts = set (extractAllTrKeys one_key_source) - {js ''__proto__''}"
    "\<forall>k \<in> fst ` set ts. map_of ts k = Some (if js ''fr'' = CANONICAL_LOCALE then k else [])"
    and rest: "update_loadTranslationFile malformed_fr (js ''fr'') = []"
      "merge_loadTranslationFile malformed_fr (js ''fr'') = Inl (CouldNotLoad (js ''fr''))"
      "stores (fst (merge_main malformed_fr)) (js ''fr'') = stores malformed_fr (js ''fr'')"
    by blast
  from ts(2) p have keys: "fst ` set ts = {js ''Hello''}" by (auto simp: one_key)
  with ts(3) l have "map_of ts (js ''Hello'') = Some []" by simp
  with m fr_supported run rest ts(1) keys show ?thesis by auto
qed

text \<open>
  C7, as claimed: when the batch that a run assembles is empty, no batch file exists
  after the run. The code does otherwise at this input: there is no source key, the
  assembled batch is empty, and the batch file of an earlier run is still there.
\<close>

theorem stale_batch_counterexample:
  "assembled_batch [] stale_example = Some []
   \<and> snd (update_main [] stale_example) = Completed
   \<and> toTranslateFile (fst (update_main [] stale_example))
       = Batch [(js ''fr'', Translations [(js ''Old label'', [])])]"
  by code_simp

text \<open>
  C7, amended: when the batch that a run assembles is empty, the run completes and
  leaves the batch file exactly as it found it: it writes none, and one that was there
  stays.
\<close>

theorem empty_batch_leaves_file:
  assumes "assembled_batch sourceFiles fs = Some []"
  shows "snd (update_main sourceFiles fs) = Completed
       \<and> toTranslateFile (fst (update_main sourceFiles fs)) = toTranslateFile fs"
proof -
  from assms obtain fs1 where run: "update_run sourceFiles fs = Inr (fs1, [])"
    by (auto simp: assembled_batch_def split: sum.splits)
  then have "toTranslateFile fs1 = toTranslateFile fs"
    using sync_locales_Inr [OF _ distinct_SUPPORTED_LOCALES] by (simp add: update_run_def Let_def)
  with run show ?thesis by (simp add: update_main_def)
qed

text \<open>The theorem at the state with the batch of an earlier run.\<close>

theorem empty_batch_leaves_file_witness:
  "assembled_batch [] stale_example = Some []
   \<and> snd (update_main [] stale_example) = Completed
   \<and> toTranslateFile (fst (update_main [] stale_example)) = toTranslateFile stale_example"
proof -
  have e: "assembled_batch [] stale_example = Some []" by code_simp
  from empty_batch_leaves_file [OF e] e show ?thesis by simp
qed

text \<open>
  C8 says that a merge of a batch without blank entries never reduces the keys of a
  store, and deletes the batch only when an entry was merged. The code at two inputs.
  First, \<^verbatim>\<open>fr.json\<close> has the keys \<^verbatim>\<open>__proto__\<close> and \<^verbatim>\<open>Hello\<close> and the batch
  translates \<^verbatim>\<open>Hello\<close>: the merge ends normally and the written \<^verbatim>\<open>fr.json\<close> has
  the one key \<^verbatim>\<open>Hello\<close>, because saveTranslationFile copies the keys into a fresh
  object by assignment. Second, the only entry of the batch has the key
  \<^verbatim>\<open>__proto__\<close>: the assignment stores nothing, \<^verbatim>\<open>fr.json\<close> is as before, yet the
  entry is counted and the batch is deleted.
\<close>

theorem merge_proto_key_lost:
  "toTranslateFile proto_store_example = Batch [(js ''fr'', Translations [(js ''Hello'', js ''Bonjour'')])]
   \<and> \<not> blank (js ''Bonjour'')
   \<and> stores proto_store_example (js ''fr'') = Stored [(js ''__proto__'', js ''x''), (js ''Hello'', [])]
   \<and> snd (merge_main proto_store_example) = Finished 1
   \<and> stores (fst (merge_main proto_store_example)) (js ''fr'') = Stored [(js ''Hello'', js ''Bonjour'')]
   \<and> toTranslateFile proto_batch_example = Batch [(js ''fr'', Translations [(js ''__proto__'', js ''x'')])]
   \<and> stores proto_batch_example (js ''fr'') = Stored [(js ''Hello'', js ''Salut'')]
   \<and> snd (merge_main proto_batch_example) = Finished 1
   \<and> stores (fst (merge_main proto_batch_example)) (js ''fr'') = Stored [(js ''Hello'', js ''Salut'')]
   \<and> toTranslateFile (fst (merge_main proto_batch_example)) = NoBatch"
  by code_simp



text \<open>
  C10, as claimed: in a locale other than the canonical one, an extracted key whose
  prior text is not empty and only white space keeps that text in the rebuilt store.
  The code does otherwise at this input: the prior \<^verbatim>\<open>fr.json\<close> has a space and a
  no-break space for \<^verbatim>\<open>Hello\<close>, the prior canonical store does not have the key,
  and the rebuilt \<^verbatim>\<open>fr.json\<close> has the empty text.
\<close>

theorem whitespace_erased_counterexample:
  "stores space_new_example (js ''fr'') = Stored [(js ''Hello'', [32, 160])]
   \<and> extractAllTrKeys one_key_source = [js ''Hello'']
   \<and> snd (update_main one_key_source space_new_example) = Completed
   \<and> stores (fst (update_main one_key_source space_new_example)) (js ''fr'') = Stored [(js ''Hello'', [])]"
  by code_simp

text \<open>
  C10, amended: after a run that completes, in a supported locale other than the
  canonical one, an extracted key other than \<^verbatim>\<open>__proto__\<close> that the prior canonical
  store has, and whose prior text in the locale is not empty and only white space,
  keeps that text in the rebuilt store, and the batch file written by the run has the
  key, with the empty text, under that locale.
\<close>

theorem whitespace_kept_and_pending:
  assumes run: "snd (update_main sourceFiles fs) = Completed"
    and l: "l \<in> set SUPPORTED_LOCALES" "l \<noteq> CANONICAL_LOCALE"
    and k: "k \<in> set (extractAllTrKeys sourceFiles)" "k \<noteq> js ''__proto__''"
    and canon: "stored_text (stores fs CANONICAL_LOCALE) k \<noteq> None"
    and prior: "stored_text (stores fs l) k = Some v" "v \<noteq> []" "blank v"
  shows "(\<exists>ts. stores (fst (update_main sourceFiles fs)) l = Stored ts \<and> map_of ts k = Some v)
       \<and> (\<exists>b pend. toTranslateFile (fst (update_main sourceFiles fs)) = Batch b
              \<and> map_of b l = Some (Translations pend) \<and> map_of pend k = Some [])"
proof -
  let ?ek = "map fst (update_loadTranslationFile fs CANONICAL_LOCALE)"
  let ?cur = "update_loadTranslationFile fs l"
  note pair = completed_pair [OF run]
  from k(2) have kp: "k \<noteq> proto_key" by (simp add: proto_key_js)
  from completed_text [OF pair l(1)] k(1) kp canon prior
  have store: "\<exists>ts. stores (fst (update_main sourceFiles fs)) l = Stored ts \<and> map_of ts k = Some v"
    by auto
  from get_prop_load_own [OF prior(1)] l(2) prior(3) have "needs_translation ?ek ?cur l k"
    by (simp add: needs_translation_def)
  from update_main_batch_pending [OF pair l(1) k(1) kp this] store show ?thesis by blast
qed

text \<open>The theorem at \<^verbatim>\<open>fr\<close>, with the key in both prior stores.\<close>

theorem whitespace_kept_and_pending_witness:
  "snd (update_main one_key_source space_example) = Completed
   \<and> js ''fr'' \<in> set SUPPORTED_LOCALES \<and> js ''fr'' \<noteq> CANONICAL_LOCALE
   \<and> js ''Hello'' \<in> set (extractAllTrKeys one_key_source) \<and> js ''Hello'' \<noteq> js ''__proto__''
   \<and> stored_text (stores space_example CANONICAL_LOCALE) (js ''Hello'') = Some (js ''Hello'')
   \<and> stored_text (stores space_example (js ''fr'')) (js ''Hello'') = Some [32, 160]
   \<and> blank [32, 160]
   \<and> (\<exists>ts. stores (fst (update_main one_key_source space_example)) (js ''fr'') = Stored ts
          \<and> map_of ts (js ''Hello'') = Some [32, 160])
   \<and> (\<exists>b pend. toTranslateFile (fst (update_main one_key_source space_example)) = Batch b
          \<and> map_of b (js ''fr'') = Some (Translations pend) \<and> map_of pend (js ''Hello'') = Some [])"
proof -
  have run: "snd (update_main one_key_source space_example) = Completed" by code_simp
  have l: "js ''fr'' \<noteq> CANONICAL_LOCALE" by code_simp
  have k: "js ''Hello'' \<in> set (extractAllTrKeys one_key_source)" by (simp add: one_key)
  have p: "js ''Hello'' \<noteq> js ''__proto__''" by code_simp
  have c: "stored_text (stores space_example CANONICAL_LOCALE) (js ''Hello'') = Some (js ''Hello'')"
    by code_simp
  then have c': "stored_text (stores space_example CANONICAL_LOCALE) (js ''Hello'') \<noteq> None" by simp
  have f: "stored_text (stores space_example (js ''fr'')) (js ''Hello'') = Some [32, 160]"
    by code_simp
  have ne: "[32, 160] \<noteq> ([] :: js_string)" by simp
  have bl: "blank [32, 160]" by code_simp
  from whitespace_kept_and_pending [OF run fr_supported l k p c' f ne bl] run fr_supported l k p c f bl
  show ?thesis by blast
qed

end
